theory Spec2Isabelle
  imports Complex_Main
begin

section \<open>The intake record\<close>

text \<open>
  The form of \<^verbatim>\<open>symptom-form.tsx\<close> keeps one record of type \<^verbatim>\<open>FormData\<close>. A field
  that JavaScript leaves \<^verbatim>\<open>undefined\<close> is \<open>None\<close>. A number typed into a numeric
  input is a finite decimal and is kept as a rational; an empty numeric input is stored
  as \<^verbatim>\<open>undefined\<close> by the \<^verbatim>\<open>onChange\<close> handlers of the profile step. A string is a
  sequence of code units, here restricted to the 8-bit range. Of a \<^verbatim>\<open>File\<close> only the
  two properties the code reads are kept.
\<close>

record symptom =
  sname :: string
  severity :: string

record medicalHistory =
  pastConditions :: "string option"
  currentMedications :: "string option"

record jsfile =
  fsize :: nat
  ftype :: string

record formData =
  name :: string
  age :: "rat option"
  weight :: "rat option"
  weightUnit :: "string option"
  height :: "rat option"
  heightUnit :: "string option"
  gender :: string
  symptoms :: "symptom list"
  medicalHistory :: medicalHistory
  medicalImage :: "jsfile list option"
  imageDescription :: "string option"

definition MAX_FILE_SIZE :: nat where
  "MAX_FILE_SIZE = 10 * 1024 * 1024"

definition ACCEPTED_IMAGE_TYPES :: "string list" where
  "ACCEPTED_IMAGE_TYPES =
     [''image/jpeg'', ''image/jpg'', ''image/png'', ''image/webp'', ''image/dicom'']"

definition genderOptions :: "string list" where
  "genderOptions = [''Male'', ''Female'', ''Other'', ''Prefer not to say'']"

definition weightUnits :: "string list" where
  "weightUnits = [''kg'', ''lbs'']"

definition heightUnits :: "string list" where
  "heightUnits = [''cm'', ''in'', ''ft'']"

definition severityLevels :: "string list" where
  "severityLevels = [''Mild'', ''Moderate'', ''Severe'', ''Very Severe'']"

text \<open>The \<^verbatim>\<open>defaultValues\<close> handed to \<^verbatim>\<open>useForm\<close>.\<close>

definition defaultValues :: formData where
  "defaultValues =
     \<lparr> name = [], age = None, weight = None, weightUnit = None,
       height = None, heightUnit = None, gender = [],
       symptoms = [\<lparr> sname = [], severity = [] \<rparr>],
       medicalHistory = \<lparr> pastConditions = Some [], currentMedications = Some [] \<rparr>,
       medicalImage = None, imageDescription = Some [] \<rparr>"

section \<open>The validation schema\<close>

text \<open>
  A validation issue is a field path with a message. A path is a list of object keys
  and array indices, as the schema library reports it.
\<close>

datatype seg = Key string | Idx nat

type_synonym path = "seg list"

type_synonym issue = "path \<times> string"

text \<open>
  A parser of the schema library ends in one of three states: valid, dirty (an issue
  was recorded by a check, parsing went on) or aborted (the value has the wrong type).
  An object is aborted as soon as one of its members is, and a refinement attached to a
  schema is not executed on an aborted result.
\<close>

datatype status = Valid | Dirty | Aborted

type_synonym parsed = "status \<times> issue list"

definition checked :: "issue list \<Rightarrow> parsed" where
  "checked iss = (if iss = [] then Valid else Dirty, iss)"

definition merge_status :: "parsed list \<Rightarrow> parsed" where
  "merge_status rs =
     (if list_ex (\<lambda>r. fst r = Aborted) rs then Aborted
      else if list_ex (\<lambda>r. fst r = Dirty) rs then Dirty else Valid,
      concat (map snd rs))"

text \<open>JavaScript truthiness of the values the refinements test.\<close>

definition truthy_number :: "rat option \<Rightarrow> bool" where
  "truthy_number x = (case x of None \<Rightarrow> False | Some n \<Rightarrow> n \<noteq> 0)"

definition truthy_string :: "string option \<Rightarrow> bool" where
  "truthy_string x = (case x of None \<Rightarrow> False | Some s \<Rightarrow> s \<noteq> [])"

definition string_min1 :: "path \<Rightarrow> string \<Rightarrow> string \<Rightarrow> parsed" where
  \<comment> \<open>\<^verbatim>\<open>z.string().min(1, msg)\<close> on a string\<close>
  "string_min1 p msg s = checked (if length s < 1 then [(p, msg)] else [])"

definition is_integer :: "rat \<Rightarrow> bool" where
  "is_integer n = (of_int \<lfloor>n\<rfloor> = n)"

definition age_schema :: "rat option \<Rightarrow> parsed" where
  \<comment> \<open>\<^verbatim>\<open>z.coerce.number().int().positive(..).min(1, ..)\<close>; \<^verbatim>\<open>Number(undefined)\<close> is NaN\<close>
  "age_schema a =
     (case a of
        None \<Rightarrow> (Aborted, [([Key ''age''], ''Expected number, received nan'')])
      | Some n \<Rightarrow>
          checked
            ((if is_integer n then [] else [([Key ''age''], ''Expected integer, received float'')])
             @ (if 0 < n then [] else [([Key ''age''], ''Age must be a positive number.'')])
             @ (if 1 \<le> n then [] else [([Key ''age''], ''Age is required.'')])))"

definition positive_optional :: "path \<Rightarrow> string \<Rightarrow> rat option \<Rightarrow> parsed" where
  \<comment> \<open>\<^verbatim>\<open>z.coerce.number().positive(msg).optional()\<close>\<close>
  "positive_optional p msg x =
     (case x of
        None \<Rightarrow> (Valid, [])
      | Some n \<Rightarrow> checked (if 0 < n then [] else [(p, msg)]))"

definition symptomSchema :: "path \<Rightarrow> symptom \<Rightarrow> parsed" where
  "symptomSchema p s =
     merge_status
       [string_min1 (p @ [Key ''name'']) ''Symptom name is required.'' (sname s),
        string_min1 (p @ [Key ''severity'']) ''Severity is required.'' (severity s)]"

definition symptoms_schema :: "symptom list \<Rightarrow> parsed" where
  \<comment> \<open>\<^verbatim>\<open>z.array(symptomSchema).min(1, ..)\<close>\<close>
  "symptoms_schema xs =
     merge_status
       (checked (if length xs < 1
                 then [([Key ''symptoms''], ''Please add at least one symptom.'')] else [])
        # map (\<lambda>(i, s). symptomSchema [Key ''symptoms'', Idx i] s) (enumerate 0 xs))"

definition medicalImage_schema :: "jsfile list option \<Rightarrow> parsed" where
  \<comment> \<open>\<^verbatim>\<open>z.custom<FileList>().refine(size).refine(type).optional()\<close>\<close>
  "medicalImage_schema m =
     (case m of
        None \<Rightarrow> (Valid, [])
      | Some files \<Rightarrow>
          checked
            ((if length files = 0 \<or> fsize (hd files) \<le> MAX_FILE_SIZE then []
              else [([Key ''medicalImage''], ''Max image size is 10MB.'')])
             @ (if length files = 0 \<or> ftype (hd files) \<in> set ACCEPTED_IMAGE_TYPES then []
                else [([Key ''medicalImage''],
                       ''Only .jpg, .jpeg, .png, .webp and .dicom formats are supported.'')])))"

definition imageDescription_schema :: "string option \<Rightarrow> parsed" where
  \<comment> \<open>\<^verbatim>\<open>z.string().max(1000, ..).optional()\<close>\<close>
  "imageDescription_schema x =
     (case x of
        None \<Rightarrow> (Valid, [])
      | Some s \<Rightarrow>
          checked (if 1000 < length s
                   then [([Key ''imageDescription''],
                          ''Description must be less than 1000 characters'')]
                   else []))"

definition string_optional :: "string option \<Rightarrow> parsed" where
  \<comment> \<open>\<^verbatim>\<open>z.string().optional()\<close>: absent or any string\<close>
  "string_optional x = (Valid, [])"

definition medicalHistorySchema :: "medicalHistory \<Rightarrow> parsed" where
  "medicalHistorySchema h =
     merge_status [string_optional (pastConditions h), string_optional (currentMedications h)]"

text \<open>The members of the object schema, parsed in the order of their declaration.\<close>

definition object_schema :: "formData \<Rightarrow> parsed" where
  "object_schema d =
     merge_status
       [string_min1 [Key ''name''] ''Name is required.'' (name d),
        age_schema (age d),
        positive_optional [Key ''weight''] ''Weight must be positive'' (weight d),
        string_optional (weightUnit d),
        positive_optional [Key ''height''] ''Height must be positive'' (height d),
        string_optional (heightUnit d),
        string_min1 [Key ''gender''] ''Gender is required.'' (gender d),
        symptoms_schema (symptoms d),
        medicalHistorySchema (medicalHistory d),
        medicalImage_schema (medicalImage d),
        imageDescription_schema (imageDescription d)]"

text \<open>The three refinements chained on the object, each with its path.\<close>

definition weight_rule :: "formData \<Rightarrow> bool" where
  "weight_rule d = (if truthy_number (weight d) then truthy_string (weightUnit d) else True)"

definition height_rule :: "formData \<Rightarrow> bool" where
  "height_rule d = (if truthy_number (height d) then truthy_string (heightUnit d) else True)"

definition image_rule :: "formData \<Rightarrow> bool" where
  "image_rule d =
     (if (case medicalImage d of None \<Rightarrow> False | Some files \<Rightarrow> length files > 0)
      then truthy_string (imageDescription d) else True)"

definition refinements :: "formData \<Rightarrow> issue list" where
  "refinements d =
     (if weight_rule d then []
      else [([Key ''weightUnit''], ''Weight unit is required if weight is provided.'')])
     @ (if height_rule d then []
        else [([Key ''heightUnit''], ''Height unit is required if height is provided.'')])
     @ (if image_rule d then []
        else [([Key ''imageDescription''],
               ''Please provide a description for the uploaded image.'')])"

definition formSchema :: "formData \<Rightarrow> issue list" where
  "formSchema d =
     (case object_schema d of
        (Aborted, iss) \<Rightarrow> iss
      | (_, iss) \<Rightarrow> iss @ refinements d)"

text \<open>Full validation accepts a record when the schema reports no issue.\<close>

definition accepted :: "formData \<Rightarrow> bool" where
  "accepted d = (formSchema d = [])"

text \<open>
  An error is attached to a field when some issue lies at the field's path or below it
  (the form library's \<^verbatim>\<open>get(errors, name)\<close>).
\<close>

definition under :: "path \<Rightarrow> path \<Rightarrow> bool" where
  "under n p = (take (length n) p = n)"

definition has_error :: "issue list \<Rightarrow> path \<Rightarrow> bool" where
  "has_error es n = list_ex (\<lambda>e. under n (fst e)) es"

text \<open>
  The resolver that connects the schema to the form keeps, for each path, the first
  issue the schema reports there; the form records what the resolver returns.
\<close>

fun parseErrorSchema :: "issue list \<Rightarrow> issue list" where
  "parseErrorSchema [] = []"
| "parseErrorSchema (e # es) = e # filter (\<lambda>x. fst x \<noteq> fst e) (parseErrorSchema es)"

definition resolver :: "formData \<Rightarrow> issue list" where
  "resolver d = parseErrorSchema (formSchema d)"

section \<open>The wizard\<close>

text \<open>
  The state of the component \<^verbatim>\<open>SymptomForm\<close>: its \<^verbatim>\<open>useState\<close> cells, and of the form
  object \<^verbatim>\<open>methods\<close> the current values and the recorded errors
  (\<^verbatim>\<open>formState.errors\<close>, kept as the list of issues). The type \<open>'r\<close> is the result
  of the analysis service, which the form never inspects.
\<close>

record 'r wizard =
  currentStep :: nat
  isLoading :: bool
  results :: "'r option"
  error :: "string option"
  imagePreview :: "string option"
  formValues :: formData
  formErrors :: "issue list"

definition steps :: "string list" where
  "steps = [''profile'', ''symptoms'', ''medical-image'', ''medical-history'', ''review'']"

definition initial :: "'r wizard" where
  "initial =
     \<lparr> currentStep = 0, isLoading = False, results = None, error = None,
       imagePreview = None, formValues = defaultValues, formErrors = [] \<rparr>"

datatype js_error = TypeError

text \<open>
  \<^verbatim>\<open>trigger(names)\<close> of the form library with a resolver: the whole record is run
  through the resolver, the recorded errors are replaced for the given names only, and
  the answer is whether none of the names has an error. \<open>settle\<close> is the replacement
  step.
\<close>

definition in_scope :: "path list \<Rightarrow> path \<Rightarrow> bool" where
  "in_scope names p = list_ex (\<lambda>n. under n p) names"

definition settle :: "path list \<Rightarrow> issue list \<Rightarrow> 'r wizard \<Rightarrow> 'r wizard" where
  "settle names found s =
     s\<lparr> formErrors :=
          filter (\<lambda>e. \<not> in_scope names (fst e)) (formErrors s)
          @ filter (\<lambda>e. in_scope names (fst e)) found \<rparr>"

definition scope_valid :: "path list \<Rightarrow> issue list \<Rightarrow> bool" where
  "scope_valid names found = (\<not> list_ex (\<lambda>n. has_error found n) names)"

definition trigger :: "path list \<Rightarrow> 'r wizard \<Rightarrow> bool \<times> 'r wizard" where
  "trigger names s =
     (let found = resolver (formValues s)
      in (scope_valid names found, settle names found s))"

definition clearErrors :: "path \<Rightarrow> 'r wizard \<Rightarrow> 'r wizard" where
  "clearErrors n s = s\<lparr> formErrors := filter (\<lambda>e. \<not> under n (fst e)) (formErrors s) \<rparr>"

definition profile_fields :: "path list" where
  "profile_fields =
     [[Key ''name''], [Key ''age''], [Key ''gender''], [Key ''weight''],
      [Key ''weightUnit''], [Key ''height''], [Key ''heightUnit'']]"

definition advance :: "'r wizard \<Rightarrow> 'r wizard" where
  \<comment> \<open>\<^verbatim>\<open>setCurrentStep(prev => Math.min(prev + 1, steps.length - 1))\<close>\<close>
  "advance s = s\<lparr> currentStep := min (currentStep s + 1) (length steps - 1) \<rparr>"

text \<open>
  Reading \<^verbatim>\<open>steps[currentStep].id\<close> beyond the list raises a \<^verbatim>\<open>TypeError\<close>.
\<close>

definition goToNextStep :: "'r wizard \<Rightarrow> js_error + 'r wizard" where
  "goToNextStep s =
     (if length steps \<le> currentStep s then Inl TypeError
      else
        let stepId = steps ! currentStep s in
        if stepId = ''profile'' then
          (case trigger profile_fields s of
             (profileValid, t) \<Rightarrow> if \<not> profileValid then Inr t else Inr (advance t))
        else if stepId = ''symptoms'' then
          (case trigger [[Key ''symptoms'']] s of
             (symptomsValid, t) \<Rightarrow> if \<not> symptomsValid then Inr t else Inr (advance t))
        else if stepId = ''medical-image'' then
          (if has_error (formErrors s) [Key ''medicalImage''] then Inr s
           else Inr (advance s))
        else Inr (advance s))"

definition goToPreviousStep :: "'r wizard \<Rightarrow> 'r wizard" where
  \<comment> \<open>\<^verbatim>\<open>setCurrentStep(prev => Math.max(prev - 1, 0))\<close>\<close>
  "goToPreviousStep s = s\<lparr> currentStep := nat (max (int (currentStep s) - 1) 0) \<rparr>"

definition skipStep :: "'r wizard \<Rightarrow> js_error + 'r wizard" where
  "skipStep s =
     (if length steps \<le> currentStep s then Inl TypeError
      else
        let stepId = steps ! currentStep s in
        if stepId = ''medical-image'' \<or> stepId = ''medical-history''
        then Inr (s\<lparr> currentStep := currentStep s + 1 \<rparr>)
        else Inr s)"

section \<open>Submission\<close>

text \<open>
  The comma lists of the medical history:
  \<^verbatim>\<open>text?.split(',').map(s => s.trim()).filter(s => s) ?? []\<close>.
  \<open>split_comma\<close> is \<^verbatim>\<open>split(',')\<close>, which always returns at least one piece, and
  \<open>trim\<close> removes the white space and line terminators of JavaScript at both ends.
\<close>

fun split_comma :: "string \<Rightarrow> string list" where
  "split_comma [] = [[]]"
| "split_comma (c # cs) =
     (if c = CHR '','' then [] # split_comma cs
      else (case split_comma cs of
              [] \<Rightarrow> [[c]]
            | p # ps \<Rightarrow> (c # p) # ps))"

definition is_space :: "char \<Rightarrow> bool" where
  "is_space c =
     (c \<in> set [CHR 0x09, CHR 0x0A, CHR 0x0B, CHR 0x0C, CHR 0x0D, CHR 0x20, CHR 0xA0])"

definition trim :: "string \<Rightarrow> string" where
  "trim s = rev (dropWhile is_space (rev (dropWhile is_space s)))"

definition comma_list :: "string option \<Rightarrow> string list" where
  "comma_list x =
     (case x of
        None \<Rightarrow> []
      | Some s \<Rightarrow> filter (\<lambda>t. t \<noteq> []) (map trim (split_comma s)))"

text \<open>
  The same list in the words of the specification: cut the text at every comma, in
  order, trim each substring, and keep the non-empty ones. \<open>comma_substrings\<close> cuts at the
  first comma and goes on with the rest.
\<close>

function comma_substrings :: "string \<Rightarrow> string list" where
  "comma_substrings s =
     (case dropWhile (\<lambda>c. c \<noteq> CHR '','') s of
        [] \<Rightarrow> [s]
      | _ # rest \<Rightarrow> takeWhile (\<lambda>c. c \<noteq> CHR '','') s # comma_substrings rest)"
  by pat_completeness auto
termination
proof (relation "measure length")
  show "wf (measure length)"
    by simp
next
  fix s :: string and x rest
  assume "dropWhile (\<lambda>c. c \<noteq> CHR '','') s = x # rest"
  then have "length rest < length (dropWhile (\<lambda>c. c \<noteq> CHR '','') s)"
    by simp
  also have "\<dots> \<le> length s"
    by (rule length_dropWhile_le)
  finally show "(rest, s) \<in> measure length"
    by simp
qed

text \<open>
  Trimming in the words of the specification, without the library functions the code
  uses: white space is named by its code units, leading white space is dropped character
  by character, and the text ends where only white space follows.
\<close>

definition white_space :: "char \<Rightarrow> bool" where
  "white_space c =
     (let n = (of_char c :: nat) in (9 \<le> n \<and> n \<le> 13) \<or> n = 32 \<or> n = 160)"

fun drop_leading :: "string \<Rightarrow> string" where
  "drop_leading [] = []"
| "drop_leading (c # cs) = (if white_space c then drop_leading cs else c # cs)"

fun drop_trailing :: "string \<Rightarrow> string" where
  "drop_trailing [] = []"
| "drop_trailing (c # cs) =
     (if white_space c \<and> list_all white_space cs then [] else c # drop_trailing cs)"

definition trimmed :: "string \<Rightarrow> string" where
  "trimmed s = drop_trailing (drop_leading s)"

definition blank :: "string option \<Rightarrow> bool" where
  "blank x = (case x of None \<Rightarrow> True | Some s \<Rightarrow> list_all white_space s)"

definition trimmed_items :: "string option \<Rightarrow> string list" where
  "trimmed_items x =
     (case x of
        None \<Rightarrow> []
      | Some s \<Rightarrow> [trimmed t. t \<leftarrow> comma_substrings s, trimmed t \<noteq> []])"

text \<open>The payload of the analysis service, \<^verbatim>\<open>AnalyzeSymptomsInput\<close>.\<close>

record formattedMedicalHistory =
  pastConditionsList :: "string list"
  currentMedicationsList :: "string list"

record analyzeSymptomsInput =
  in_name :: string
  in_age :: "rat option"
  in_weight :: "rat option"
  in_weightUnit :: "string option"
  in_height :: "rat option"
  in_heightUnit :: "string option"
  in_gender :: string
  in_symptoms :: "symptom list"
  in_medicalHistory :: formattedMedicalHistory
  imageDataUri :: "string option"

definition has_image :: "formData \<Rightarrow> bool" where
  \<comment> \<open>\<^verbatim>\<open>data.medicalImage && data.medicalImage.length > 0\<close>\<close>
  "has_image d = (case medicalImage d of None \<Rightarrow> False | Some files \<Rightarrow> length files > 0)"

definition payload :: "formData \<Rightarrow> string option \<Rightarrow> analyzeSymptomsInput" where
  "payload d uri =
     \<lparr> in_name = name d, in_age = age d, in_weight = weight d,
       in_weightUnit = weightUnit d, in_height = height d, in_heightUnit = heightUnit d,
       in_gender = gender d, in_symptoms = symptoms d,
       in_medicalHistory =
         \<lparr> pastConditionsList = comma_list (pastConditions (medicalHistory d)),
           currentMedicationsList = comma_list (currentMedications (medicalHistory d)) \<rparr>,
       imageDataUri = uri \<rparr>"

definition image_error_message :: string where
  "image_error_message = ''Failed to process the uploaded image. Please try again.''"

definition analysis_error_message :: string where
  "analysis_error_message =
     ''An error occurred while analyzing symptoms. The AI model might have limitations with image analysis or the input provided. Please ensure the image is clear and relevant, or try removing it. If the problem persists, contact support.''"

text \<open>
  \<^verbatim>\<open>onSubmit\<close>. The two asynchronous collaborators are parameters: \<open>fileToDataUri\<close>
  answers \<open>None\<close> when the reader fails, \<open>analyzeSymptoms\<close> answers \<open>None\<close> when the call
  is rejected. The function returns the state once the promise has settled, with the
  payloads handed to the analysis service, in order.
\<close>

definition onSubmit ::
  "(jsfile \<Rightarrow> string option) \<Rightarrow> (analyzeSymptomsInput \<Rightarrow> 'r option) \<Rightarrow> formData
     \<Rightarrow> 'r wizard \<Rightarrow> 'r wizard \<times> analyzeSymptomsInput list" where
  "onSubmit fileToDataUri analyzeSymptoms d s =
     (let s1 = s\<lparr> isLoading := True, error := None, results := None \<rparr>;
          converted =
            (case medicalImage d of
               Some (f # _) \<Rightarrow>
                 (case fileToDataUri f of
                    None \<Rightarrow> Inl ()
                  | Some uri \<Rightarrow> Inr (Some uri))
             | _ \<Rightarrow> Inr None)
      in case converted of
           Inl _ \<Rightarrow>
             (s1\<lparr> error := Some image_error_message, isLoading := False \<rparr>, [])
         | Inr uri \<Rightarrow>
             (let input = payload d uri
              in case analyzeSymptoms input of
                   Some diagnosisResults \<Rightarrow>
                     (s1\<lparr> results := Some diagnosisResults, isLoading := False \<rparr>, [input])
                 | None \<Rightarrow>
                     (s1\<lparr> error := Some analysis_error_message,
                          isLoading := False \<rparr>, [input])))"

text \<open>
  \<^verbatim>\<open>methods.handleSubmit(onSubmit)\<close>: the whole record is validated, the recorded errors
  are replaced by the outcome, and \<^verbatim>\<open>onSubmit\<close> runs only when there is none. On a record
  of this model the parsed data the resolver hands on are the values themselves.
\<close>

definition handleSubmit ::
  "(jsfile \<Rightarrow> string option) \<Rightarrow> (analyzeSymptomsInput \<Rightarrow> 'r option)
     \<Rightarrow> 'r wizard \<Rightarrow> 'r wizard \<times> analyzeSymptomsInput list" where
  "handleSubmit fileToDataUri analyzeSymptoms s =
     (let found = resolver (formValues s); t = s\<lparr> formErrors := found \<rparr>
      in if found = [] then onSubmit fileToDataUri analyzeSymptoms (formValues s) t
         else (t, []))"

section \<open>The controls of the steps\<close>

text \<open>
  \<^verbatim>\<open>removeImage\<close> of the medical-image step. Each \<^verbatim>\<open>setValue\<close> with
  \<^verbatim>\<open>shouldValidate\<close> starts a validation of its field on the values of that moment; the
  validation is asynchronous, so its outcome reaches the recorded errors after the two
  synchronous \<^verbatim>\<open>clearErrors\<close> calls.
\<close>

definition removeImage :: "'r wizard \<Rightarrow> 'r wizard" where
  "removeImage s =
     (let s1 = s\<lparr> imagePreview := None \<rparr>;
          s2 = s1\<lparr> formValues := (formValues s1)\<lparr> medicalImage := None \<rparr> \<rparr>;
          found1 = resolver (formValues s2);
          s3 = s2\<lparr> formValues := (formValues s2)\<lparr> imageDescription := None \<rparr> \<rparr>;
          found2 = resolver (formValues s3);
          s4 = clearErrors [Key ''medicalImage''] s3;
          s5 = clearErrors [Key ''imageDescription''] s4;
          s6 = settle [[Key ''medicalImage'']] found1 s5
      in settle [[Key ''imageDescription'']] found2 s6)"

text \<open>
  What the controls of the four step components and the button that starts a new
  assessment do to the record. A select offers its options only, the unit selects are
  disabled while their magnitude is falsy, a symptom row exists for each index of the
  list only, and the button that removes a row is disabled while one row is left.
  \<open>ChooseImage files loaded\<close> is \<^verbatim>\<open>handleImageChange\<close> on the chosen files, \<open>loaded\<close>
  telling whether the file reader succeeds.
\<close>

datatype event =
    TypeName string
  | TypeAge "rat option"
  | SelectGender string
  | TypeWeight "rat option"
  | SelectWeightUnit string
  | TypeHeight "rat option"
  | SelectHeightUnit string
  | TypeSymptomName nat string
  | SelectSeverity nat string
  | AppendSymptom
  | RemoveSymptom nat
  | ChooseImage "jsfile list" bool
  | RemoveImage
  | TypeImageDescription string
  | TypePastConditions string
  | TypeCurrentMedications string
  | StartNewAssessment

definition remove_disabled :: "formData \<Rightarrow> bool" where
  \<comment> \<open>\<^verbatim>\<open>disabled={fields.length <= 1}\<close>\<close>
  "remove_disabled d = (length (symptoms d) \<le> 1)"

fun edit :: "event \<Rightarrow> formData \<Rightarrow> formData" where
  "edit (TypeName v) d = d\<lparr> name := v \<rparr>"
| "edit (TypeAge v) d = d\<lparr> age := v \<rparr>"
| "edit (SelectGender v) d = (if v \<in> set genderOptions then d\<lparr> gender := v \<rparr> else d)"
| "edit (TypeWeight v) d = d\<lparr> weight := v \<rparr>"
| "edit (SelectWeightUnit v) d =
     (if truthy_number (weight d) \<and> v \<in> set weightUnits then d\<lparr> weightUnit := Some v \<rparr> else d)"
| "edit (TypeHeight v) d = d\<lparr> height := v \<rparr>"
| "edit (SelectHeightUnit v) d =
     (if truthy_number (height d) \<and> v \<in> set heightUnits then d\<lparr> heightUnit := Some v \<rparr> else d)"
| "edit (TypeSymptomName i v) d =
     (if i < length (symptoms d)
      then d\<lparr> symptoms := (symptoms d)[i := (symptoms d ! i)\<lparr> sname := v \<rparr>] \<rparr> else d)"
| "edit (SelectSeverity i v) d =
     (if i < length (symptoms d) \<and> v \<in> set severityLevels
      then d\<lparr> symptoms := (symptoms d)[i := (symptoms d ! i)\<lparr> severity := v \<rparr>] \<rparr> else d)"
| "edit AppendSymptom d = d\<lparr> symptoms := symptoms d @ [\<lparr> sname = [], severity = [] \<rparr>] \<rparr>"
| "edit (RemoveSymptom i) d =
     (if remove_disabled d \<or> length (symptoms d) \<le> i then d
      else d\<lparr> symptoms := take i (symptoms d) @ drop (Suc i) (symptoms d) \<rparr>)"
| "edit (ChooseImage files loaded) d =
     (case files of
        [] \<Rightarrow> d\<lparr> medicalImage := None \<rparr>
      | f # _ \<Rightarrow>
          if MAX_FILE_SIZE < fsize f then d\<lparr> medicalImage := None \<rparr>
          else if ftype f \<notin> set ACCEPTED_IMAGE_TYPES then d\<lparr> medicalImage := None \<rparr>
          else if loaded then d\<lparr> medicalImage := Some files \<rparr>
          else d\<lparr> medicalImage := None \<rparr>)"
| "edit RemoveImage d = d\<lparr> medicalImage := None, imageDescription := None \<rparr>"
| "edit (TypeImageDescription v) d = d\<lparr> imageDescription := Some v \<rparr>"
| "edit (TypePastConditions v) d =
     d\<lparr> medicalHistory := (medicalHistory d)\<lparr> pastConditions := Some v \<rparr> \<rparr>"
| "edit (TypeCurrentMedications v) d =
     d\<lparr> medicalHistory := (medicalHistory d)\<lparr> currentMedications := Some v \<rparr> \<rparr>"
| "edit StartNewAssessment d = defaultValues"

definition edits :: "event list \<Rightarrow> formData \<Rightarrow> formData" where
  "edits es d = foldl (\<lambda>r e. edit e r) d es"

section \<open>Example records\<close>

text \<open>
  The record of the end-to-end examples: a profile with a weight of 70 and no unit, one
  symptom, an empty medical history and no image; the same record with the unit; and an
  image file that passes the size and type checks.
\<close>

definition jane :: formData where
  "jane =
     \<lparr> name = ''Jane'', age = Some 30, weight = Some 70, weightUnit = None,
       height = None, heightUnit = None, gender = ''Female'',
       symptoms = [\<lparr> sname = ''Headache'', severity = ''Mild'' \<rparr>],
       medicalHistory = \<lparr> pastConditions = None, currentMedications = None \<rparr>,
       medicalImage = None, imageDescription = None \<rparr>"

definition jane_kg :: formData where
  "jane_kg = jane\<lparr> weightUnit := Some ''kg'' \<rparr>"

definition scan :: jsfile where
  "scan = \<lparr> fsize = 2048, ftype = ''image/png'' \<rparr>"

text \<open>
  States of the wizard used as examples: on the medical-image step with an accepted
  image and no description; the same with a description and two recorded errors; on the
  symptoms step with the one empty symptom row of the default record, and that state
  after a rejected step forward; and on the review step with the accepted example record,
  with and without texts in the medical history; and on the profile step with an age of
  zero, for which the schema reports two issues at the same path.
\<close>

definition image_state :: "unit wizard" where
  "image_state =
     \<lparr> currentStep = 2, isLoading = False, results = None, error = None,
       imagePreview = Some ''data:image/png;base64,AAAA'',
       formValues = jane_kg\<lparr> medicalImage := Some [scan] \<rparr>, formErrors = [] \<rparr>"

definition described_image_state :: "unit wizard" where
  "described_image_state =
     \<lparr> currentStep = 2, isLoading = False, results = None, error = None,
       imagePreview = Some ''data:image/png;base64,AAAA'',
       formValues = jane_kg\<lparr> medicalImage := Some [scan],
                            imageDescription := Some ''X-ray of the right knee'' \<rparr>,
       formErrors = [([Key ''medicalImage''], ''Max image size is 10MB.''),
                     ([Key ''imageDescription''],
                      ''Please provide a description for the uploaded image.'')] \<rparr>"

definition symptoms_state :: "unit wizard" where
  "symptoms_state =
     \<lparr> currentStep = 1, isLoading = False, results = None, error = None, imagePreview = None,
       formValues = jane_kg\<lparr> symptoms := [\<lparr> sname = [], severity = [] \<rparr>] \<rparr>,
       formErrors = [] \<rparr>"

definition symptoms_rejected :: "unit wizard" where
  "symptoms_rejected =
     symptoms_state\<lparr> formErrors :=
       [([Key ''symptoms'', Idx 0, Key ''name''], ''Symptom name is required.''),
        ([Key ''symptoms'', Idx 0, Key ''severity''], ''Severity is required.'')] \<rparr>"

definition age_zero_state :: "unit wizard" where
  "age_zero_state =
     \<lparr> currentStep = 0, isLoading = False, results = None, error = None, imagePreview = None,
       formValues = jane_kg\<lparr> age := Some 0 \<rparr>, formErrors = [] \<rparr>"

definition history_state :: "unit wizard" where
  "history_state =
     \<lparr> currentStep = 4, isLoading = False, results = None, error = None, imagePreview = None,
       formValues =
         jane_kg\<lparr> medicalHistory :=
           \<lparr> pastConditions = Some '' Asthma,Type 2 diabetes ,, '',
             currentMedications = Some ''Ibuprofen , Metformin'' \<rparr> \<rparr>,
       formErrors = [] \<rparr>"

definition review_state :: "unit wizard" where
  "review_state =
     \<lparr> currentStep = 4, isLoading = False, results = None, error = None, imagePreview = None,
       formValues = jane_kg, formErrors = [] \<rparr>"

section \<open>Facts about the schema\<close>

lemma snd_merge_status: "snd (merge_status rs) = concat (map snd rs)"
  by (simp add: merge_status_def)

lemma merge_status_aborted:
  "fst (merge_status rs) = Aborted \<longleftrightarrow> (\<exists>r\<in>set rs. fst r = Aborted)"
  by (simp add: merge_status_def list_ex_iff)

lemma checked_not_aborted: "fst (checked iss) \<noteq> Aborted"
  by (simp add: checked_def)

lemma snd_checked: "snd (checked iss) = iss"
  by (simp add: checked_def)

lemma string_min1_not_aborted: "fst (string_min1 p m s) \<noteq> Aborted"
  by (simp add: string_min1_def checked_not_aborted)

lemma positive_optional_not_aborted: "fst (positive_optional p m x) \<noteq> Aborted"
  by (simp add: positive_optional_def checked_not_aborted split: option.splits)

lemma symptomSchema_not_aborted: "fst (symptomSchema p s) \<noteq> Aborted"
  by (simp add: symptomSchema_def merge_status_aborted string_min1_not_aborted)

lemma symptoms_schema_not_aborted: "fst (symptoms_schema xs) \<noteq> Aborted"
  by (auto simp add: symptoms_schema_def merge_status_aborted checked_not_aborted
      symptomSchema_not_aborted)

lemma medicalHistorySchema_not_aborted: "fst (medicalHistorySchema h) \<noteq> Aborted"
  by (simp add: medicalHistorySchema_def merge_status_aborted string_optional_def)

lemma medicalImage_schema_not_aborted: "fst (medicalImage_schema m) \<noteq> Aborted"
  by (simp add: medicalImage_schema_def checked_not_aborted split: option.splits)

lemma imageDescription_schema_not_aborted: "fst (imageDescription_schema x) \<noteq> Aborted"
  by (simp add: imageDescription_schema_def checked_not_aborted split: option.splits)

lemma age_schema_aborted: "fst (age_schema a) = Aborted \<longleftrightarrow> a = None"
  by (simp add: age_schema_def checked_not_aborted split: option.splits)

lemma object_schema_aborted: "fst (object_schema d) = Aborted \<longleftrightarrow> age d = None"
  by (simp add: object_schema_def merge_status_aborted string_min1_not_aborted
      positive_optional_not_aborted symptoms_schema_not_aborted
      medicalHistorySchema_not_aborted medicalImage_schema_not_aborted
      imageDescription_schema_not_aborted age_schema_aborted string_optional_def)

lemma formSchema_eq:
  "formSchema d =
     (if age d = None then snd (object_schema d) else snd (object_schema d) @ refinements d)"
proof (cases "object_schema d")
  case (Pair st iss)
  with object_schema_aborted [of d] show ?thesis
    by (cases st) (auto simp add: formSchema_def)
qed

lemma has_error_append: "has_error (xs @ ys) n \<longleftrightarrow> has_error xs n \<or> has_error ys n"
  by (simp add: has_error_def)

lemma has_error_iff: "has_error es n \<longleftrightarrow> (\<exists>e\<in>set es. under n (fst e))"
  by (simp add: has_error_def list_ex_iff)

lemma snd_symptomSchema:
  "e \<in> set (snd (symptomSchema p s)) \<Longrightarrow> \<exists>k. fst e = p @ [Key k]"
  by (auto simp add: symptomSchema_def snd_merge_status string_min1_def snd_checked
      split: if_splits)

lemma snd_symptoms_schema:
  assumes "e \<in> set (snd (symptoms_schema xs))"
  shows "\<exists>rest. fst e = Key ''symptoms'' # rest"
  using assms
  by (auto simp add: symptoms_schema_def snd_merge_status snd_checked
      split: if_splits dest!: snd_symptomSchema)

lemma snd_object_schema:
  "snd (object_schema d) =
     snd (string_min1 [Key ''name''] ''Name is required.'' (name d))
     @ snd (age_schema (age d))
     @ snd (positive_optional [Key ''weight''] ''Weight must be positive'' (weight d))
     @ snd (positive_optional [Key ''height''] ''Height must be positive'' (height d))
     @ snd (string_min1 [Key ''gender''] ''Gender is required.'' (gender d))
     @ snd (symptoms_schema (symptoms d))
     @ snd (medicalImage_schema (medicalImage d))
     @ snd (imageDescription_schema (imageDescription d))"
  by (simp add: object_schema_def snd_merge_status string_optional_def
      medicalHistorySchema_def)

lemma string_min1_issue:
  "e \<in> set (snd (string_min1 p m s)) \<Longrightarrow> fst e = p \<and> s = []"
  by (simp add: string_min1_def snd_checked split: if_splits)

lemma age_schema_issue: "e \<in> set (snd (age_schema a)) \<Longrightarrow> fst e = [Key ''age'']"
  by (cases a) (auto simp add: age_schema_def snd_checked split: if_splits)

lemma positive_optional_issue:
  "e \<in> set (snd (positive_optional p m x)) \<Longrightarrow> fst e = p \<and> (\<exists>n. x = Some n \<and> \<not> 0 < n)"
  by (cases x) (simp_all add: positive_optional_def snd_checked split: if_splits)

lemma medicalImage_schema_issue:
  "e \<in> set (snd (medicalImage_schema m)) \<Longrightarrow>
     fst e = [Key ''medicalImage''] \<and> (\<exists>files. m = Some files \<and> 0 < length files)"
  by (cases m) (auto simp add: medicalImage_schema_def snd_checked split: if_splits)

lemma imageDescription_schema_issue:
  "e \<in> set (snd (imageDescription_schema x)) \<Longrightarrow>
     fst e = [Key ''imageDescription''] \<and> (\<exists>s. x = Some s \<and> 1000 < length s)"
  by (cases x) (simp_all add: imageDescription_schema_def snd_checked split: if_splits)

lemma object_issue_cases:
  assumes "e \<in> set (snd (object_schema d))"
  shows "(fst e = [Key ''name''] \<and> name d = [])
       \<or> (fst e = [Key ''age''])
       \<or> (fst e = [Key ''weight''] \<and> (\<exists>n. weight d = Some n \<and> \<not> 0 < n))
       \<or> (fst e = [Key ''height''] \<and> (\<exists>n. height d = Some n \<and> \<not> 0 < n))
       \<or> (fst e = [Key ''gender''] \<and> gender d = [])
       \<or> (\<exists>rest. fst e = Key ''symptoms'' # rest)
       \<or> (fst e = [Key ''medicalImage''] \<and> has_image d)
       \<or> (fst e = [Key ''imageDescription'']
            \<and> (\<exists>s. imageDescription d = Some s \<and> 1000 < length s))"
proof -
  from assms have
    "e \<in> set (snd (string_min1 [Key ''name''] ''Name is required.'' (name d)))
     \<or> e \<in> set (snd (age_schema (age d)))
     \<or> e \<in> set (snd (positive_optional [Key ''weight''] ''Weight must be positive'' (weight d)))
     \<or> e \<in> set (snd (positive_optional [Key ''height''] ''Height must be positive'' (height d)))
     \<or> e \<in> set (snd (string_min1 [Key ''gender''] ''Gender is required.'' (gender d)))
     \<or> e \<in> set (snd (symptoms_schema (symptoms d)))
     \<or> e \<in> set (snd (medicalImage_schema (medicalImage d)))
     \<or> e \<in> set (snd (imageDescription_schema (imageDescription d)))"
    by (simp only: snd_object_schema set_append Un_iff)
  moreover have "has_image d"
    if "e \<in> set (snd (medicalImage_schema (medicalImage d)))"
    using medicalImage_schema_issue [OF that] by (auto simp add: has_image_def)
  ultimately show ?thesis
    using string_min1_issue [of e "[Key ''name'']" _ "name d"]
      string_min1_issue [of e "[Key ''gender'']" _ "gender d"]
      age_schema_issue [of e "age d"]
      positive_optional_issue [of e "[Key ''weight'']" _ "weight d"]
      positive_optional_issue [of e "[Key ''height'']" _ "height d"]
      snd_symptoms_schema [of e "symptoms d"]
      medicalImage_schema_issue [of e "medicalImage d"]
      imageDescription_schema_issue [of e "imageDescription d"]
    by blast
qed

lemma refinement_issue_cases:
  assumes "e \<in> set (refinements d)"
  shows "(fst e = [Key ''weightUnit''] \<and> \<not> weight_rule d)
       \<or> (fst e = [Key ''heightUnit''] \<and> \<not> height_rule d)
       \<or> (fst e = [Key ''imageDescription''] \<and> \<not> image_rule d)"
  using assms by (auto simp add: refinements_def split: if_splits)

lemma formSchema_subset:
  "set (formSchema d) \<subseteq> set (snd (object_schema d)) \<union> set (refinements d)"
  by (simp add: formSchema_eq)

lemma object_issues_in_formSchema: "set (snd (object_schema d)) \<subseteq> set (formSchema d)"
  by (simp add: formSchema_eq)

lemma under_key: "under [Key k] p \<longleftrightarrow> (\<exists>rest. p = Key k # rest)"
  by (cases p) (auto simp add: under_def)

lemma formSchema_issue_cases:
  assumes "e \<in> set (formSchema d)"
  shows "e \<in> set (snd (object_schema d)) \<or> (age d \<noteq> None \<and> e \<in> set (refinements d))"
  using assms by (auto simp add: formSchema_eq split: if_splits)

lemma refinements_in_formSchema:
  "age d \<noteq> None \<Longrightarrow> set (refinements d) \<subseteq> set (formSchema d)"
  by (auto simp add: formSchema_eq)

lemma not_accepted: "e \<in> set (formSchema d) \<Longrightarrow> \<not> accepted d"
  by (auto simp add: accepted_def)

lemma object_no_unit_error:
  assumes "e \<in> set (snd (object_schema d))"
  shows "\<not> under [Key ''weightUnit''] (fst e)" and "\<not> under [Key ''heightUnit''] (fst e)"
  using object_issue_cases [OF assms] by (auto simp add: under_key)

lemma weightUnit_error_iff:
  "has_error (formSchema d) [Key ''weightUnit''] \<longleftrightarrow> age d \<noteq> None \<and> \<not> weight_rule d"
proof
  assume "has_error (formSchema d) [Key ''weightUnit'']"
  then obtain e where e: "e \<in> set (formSchema d)" "under [Key ''weightUnit''] (fst e)"
    by (auto simp add: has_error_iff)
  from formSchema_issue_cases [OF e(1)] object_no_unit_error(1) e(2)
  have "age d \<noteq> None" and "e \<in> set (refinements d)"
    by blast+
  with refinement_issue_cases [of e d] e(2) show "age d \<noteq> None \<and> \<not> weight_rule d"
    by (auto simp add: under_key)
next
  assume a: "age d \<noteq> None \<and> \<not> weight_rule d"
  then have "([Key ''weightUnit''], ''Weight unit is required if weight is provided.'')
      \<in> set (refinements d)"
    by (simp add: refinements_def)
  with a refinements_in_formSchema [of d] show "has_error (formSchema d) [Key ''weightUnit'']"
    by (force simp add: has_error_iff under_def)
qed

lemma heightUnit_error_iff:
  "has_error (formSchema d) [Key ''heightUnit''] \<longleftrightarrow> age d \<noteq> None \<and> \<not> height_rule d"
proof
  assume "has_error (formSchema d) [Key ''heightUnit'']"
  then obtain e where e: "e \<in> set (formSchema d)" "under [Key ''heightUnit''] (fst e)"
    by (auto simp add: has_error_iff)
  from formSchema_issue_cases [OF e(1)] object_no_unit_error(2) e(2)
  have "age d \<noteq> None" and "e \<in> set (refinements d)"
    by blast+
  with refinement_issue_cases [of e d] e(2) show "age d \<noteq> None \<and> \<not> height_rule d"
    by (auto simp add: under_key)
next
  assume a: "age d \<noteq> None \<and> \<not> height_rule d"
  then have "([Key ''heightUnit''], ''Height unit is required if height is provided.'')
      \<in> set (refinements d)"
    by (simp add: refinements_def)
  with a refinements_in_formSchema [of d] show "has_error (formSchema d) [Key ''heightUnit'']"
    by (force simp add: has_error_iff under_def)
qed

lemma has_error_not_accepted: "has_error (formSchema d) n \<Longrightarrow> \<not> accepted d"
  by (auto simp add: has_error_iff accepted_def)

lemma weight_rule_iff:
  "\<not> weight_rule d \<longleftrightarrow>
     (\<exists>w. weight d = Some w \<and> w \<noteq> 0) \<and> (weightUnit d = None \<or> weightUnit d = Some [])"
  by (auto simp add: weight_rule_def truthy_number_def truthy_string_def split: option.splits)

lemma height_rule_iff:
  "\<not> height_rule d \<longleftrightarrow>
     (\<exists>h. height d = Some h \<and> h \<noteq> 0) \<and> (heightUnit d = None \<or> heightUnit d = Some [])"
  by (auto simp add: height_rule_def truthy_number_def truthy_string_def split: option.splits)

section \<open>Units of weight and height\<close>

text \<open>
  Claim C2, as the schema has it. An error is attached to \<open>weightUnit\<close> exactly when the
  age is a number (otherwise the object is aborted and no refinement runs), the weight
  is a number other than zero (the refinement tests its truthiness) and the unit is
  absent or the empty string; the same holds for \<open>heightUnit\<close> and the height. In each
  of these cases full validation fails.
\<close>

theorem unit_required_with_magnitude:
  "(has_error (formSchema d) [Key ''weightUnit''] \<longleftrightarrow>
      age d \<noteq> None \<and> (\<exists>w. weight d = Some w \<and> w \<noteq> 0)
      \<and> (weightUnit d = None \<or> weightUnit d = Some []))
   \<and> (has_error (formSchema d) [Key ''heightUnit''] \<longleftrightarrow>
      age d \<noteq> None \<and> (\<exists>h. height d = Some h \<and> h \<noteq> 0)
      \<and> (heightUnit d = None \<or> heightUnit d = Some []))
   \<and> (has_error (formSchema d) [Key ''weightUnit''] \<or> has_error (formSchema d) [Key ''heightUnit'']
        \<longrightarrow> \<not> accepted d)"
proof (intro conjI)
  show "has_error (formSchema d) [Key ''weightUnit''] \<longleftrightarrow>
      age d \<noteq> None \<and> (\<exists>w. weight d = Some w \<and> w \<noteq> 0)
      \<and> (weightUnit d = None \<or> weightUnit d = Some [])"
    by (simp only: weightUnit_error_iff weight_rule_iff)
  show "has_error (formSchema d) [Key ''heightUnit''] \<longleftrightarrow>
      age d \<noteq> None \<and> (\<exists>h. height d = Some h \<and> h \<noteq> 0)
      \<and> (heightUnit d = None \<or> heightUnit d = Some [])"
    by (simp only: heightUnit_error_iff height_rule_iff)
  show "has_error (formSchema d) [Key ''weightUnit''] \<or> has_error (formSchema d) [Key ''heightUnit'']
        \<longrightarrow> \<not> accepted d"
    using has_error_not_accepted [of d] by blast
qed

theorem unit_required_with_magnitude_witness:
  "has_error (formSchema jane) [Key ''weightUnit''] \<and> \<not> accepted jane
   \<and> has_error (formSchema (jane_kg\<lparr> height := Some 170 \<rparr>)) [Key ''heightUnit'']
   \<and> \<not> accepted (jane_kg\<lparr> height := Some 170 \<rparr>)"
  using unit_required_with_magnitude [of jane]
    unit_required_with_magnitude [of "jane_kg\<lparr> height := Some 170 \<rparr>"]
  by (simp add: jane_def jane_kg_def)

text \<open>
  The claim as stated fails for a weight of zero: the weight is present, the unit is
  absent, and no error is attached to \<open>weightUnit\<close> (the record is rejected for its
  weight instead).
\<close>

theorem weight_zero_counterexample:
  "weight (jane\<lparr> weight := Some 0 \<rparr>) = Some 0 \<and> weightUnit (jane\<lparr> weight := Some 0 \<rparr>) = None
   \<and> \<not> has_error (formSchema (jane\<lparr> weight := Some 0 \<rparr>)) [Key ''weightUnit'']"
  by code_simp

section \<open>Image and description\<close>

lemma image_rule_iff:
  "\<not> image_rule d \<longleftrightarrow>
     (\<exists>files. medicalImage d = Some files \<and> files \<noteq> [])
     \<and> (imageDescription d = None \<or> imageDescription d = Some [])"
  by (auto simp add: image_rule_def truthy_string_def split: option.splits)

lemma object_imageDescription_error:
  assumes "e \<in> set (snd (object_schema d))" and "under [Key ''imageDescription''] (fst e)"
  shows "\<exists>s. imageDescription d = Some s \<and> 1000 < length s"
  using object_issue_cases [OF assms(1)] assms(2) by (auto simp add: under_key)

lemma imageDescription_error_iff:
  "has_error (formSchema d) [Key ''imageDescription''] \<longleftrightarrow>
     (\<exists>s. imageDescription d = Some s \<and> 1000 < length s) \<or> (age d \<noteq> None \<and> \<not> image_rule d)"
proof
  assume "has_error (formSchema d) [Key ''imageDescription'']"
  then obtain e where e: "e \<in> set (formSchema d)" "under [Key ''imageDescription''] (fst e)"
    by (auto simp add: has_error_iff)
  from formSchema_issue_cases [OF e(1)]
  show "(\<exists>s. imageDescription d = Some s \<and> 1000 < length s) \<or> (age d \<noteq> None \<and> \<not> image_rule d)"
  proof
    assume "e \<in> set (snd (object_schema d))"
    with e(2) show ?thesis
      using object_imageDescription_error by blast
  next
    assume "age d \<noteq> None \<and> e \<in> set (refinements d)"
    with refinement_issue_cases [of e d] e(2) show ?thesis
      by (auto simp add: under_key)
  qed
next
  assume "(\<exists>s. imageDescription d = Some s \<and> 1000 < length s) \<or> (age d \<noteq> None \<and> \<not> image_rule d)"
  then show "has_error (formSchema d) [Key ''imageDescription'']"
  proof
    assume "\<exists>s. imageDescription d = Some s \<and> 1000 < length s"
    then have "([Key ''imageDescription''], ''Description must be less than 1000 characters'')
        \<in> set (snd (object_schema d))"
      by (auto simp add: snd_object_schema imageDescription_schema_def snd_checked)
    with object_issues_in_formSchema [of d] show ?thesis
      by (force simp add: has_error_iff under_def)
  next
    assume a: "age d \<noteq> None \<and> \<not> image_rule d"
    then have "([Key ''imageDescription''], ''Please provide a description for the uploaded image.'')
        \<in> set (refinements d)"
      by (simp add: refinements_def)
    with a refinements_in_formSchema [of d] show ?thesis
      by (force simp add: has_error_iff under_def)
  qed
qed

lemma age_absent_not_accepted: "age d = None \<Longrightarrow> \<not> accepted d"
proof -
  assume "age d = None"
  then have "([Key ''age''], ''Expected number, received nan'') \<in> set (snd (object_schema d))"
    by (simp add: snd_object_schema age_schema_def)
  with object_issues_in_formSchema [of d] show ?thesis
    by (auto simp add: accepted_def)
qed

text \<open>
  Claim C3, as the schema has it. When the age is a number, a record with a non-empty
  image and an absent or empty description fails full validation with an error attached
  to \<open>imageDescription\<close>. When the age is absent the object is aborted, the
  refinement does not run, and a record with an absent or empty description is rejected
  without an error on \<open>imageDescription\<close>.
\<close>

theorem image_description_required:
  "(age d \<noteq> None \<and> (\<exists>files. medicalImage d = Some files \<and> files \<noteq> [])
      \<and> (imageDescription d = None \<or> imageDescription d = Some [])
      \<longrightarrow> \<not> accepted d \<and> has_error (formSchema d) [Key ''imageDescription''])
   \<and> (age d = None \<and> (imageDescription d = None \<or> imageDescription d = Some [])
      \<longrightarrow> \<not> accepted d \<and> \<not> has_error (formSchema d) [Key ''imageDescription''])"
proof (intro conjI impI)
  assume a: "age d \<noteq> None \<and> (\<exists>files. medicalImage d = Some files \<and> files \<noteq> [])
      \<and> (imageDescription d = None \<or> imageDescription d = Some [])"
  with image_rule_iff [of d] have "age d \<noteq> None \<and> \<not> image_rule d"
    by blast
  with imageDescription_error_iff [of d]
  show "has_error (formSchema d) [Key ''imageDescription'']"
    by blast
  then show "\<not> accepted d"
    by (rule has_error_not_accepted)
next
  assume a: "age d = None \<and> (imageDescription d = None \<or> imageDescription d = Some [])"
  then show "\<not> accepted d"
    by (simp add: age_absent_not_accepted)
  from a show "\<not> has_error (formSchema d) [Key ''imageDescription'']"
    by (auto simp add: imageDescription_error_iff)
qed

theorem image_description_required_witness:
  "\<not> accepted (jane_kg\<lparr> medicalImage := Some [scan] \<rparr>)
   \<and> has_error (formSchema (jane_kg\<lparr> medicalImage := Some [scan] \<rparr>)) [Key ''imageDescription'']
   \<and> \<not> accepted (jane_kg\<lparr> age := None \<rparr>)
   \<and> \<not> has_error (formSchema (jane_kg\<lparr> age := None \<rparr>)) [Key ''imageDescription'']"
  using image_description_required [of "jane_kg\<lparr> medicalImage := Some [scan] \<rparr>"]
    image_description_required [of "jane_kg\<lparr> age := None \<rparr>"]
  by (simp add: jane_def jane_kg_def)

text \<open>
  The claim as stated fails on a record with an image, no description and the age
  field emptied: no error is attached to \<open>imageDescription\<close>.
\<close>

theorem image_without_description_counterexample:
  "medicalImage (jane_kg\<lparr> age := None, medicalImage := Some [scan] \<rparr>) = Some [scan]
   \<and> imageDescription (jane_kg\<lparr> age := None, medicalImage := Some [scan] \<rparr>) = None
   \<and> \<not> has_error (formSchema (jane_kg\<lparr> age := None, medicalImage := Some [scan] \<rparr>))
         [Key ''imageDescription'']"
  by (simp add: imageDescription_error_iff jane_kg_def jane_def)

section \<open>At least one symptom\<close>

lemma edit_symptoms_nonempty:
  assumes "symptoms d \<noteq> []"
  shows "symptoms (edit e d) \<noteq> []"
proof (cases e)
  case (RemoveSymptom i)
  show ?thesis
  proof (cases "remove_disabled d \<or> length (symptoms d) \<le> i")
    case True
    with RemoveSymptom assms show ?thesis by simp
  next
    case False
    then have "length (take i (symptoms d) @ drop (Suc i) (symptoms d)) = length (symptoms d) - 1"
      and "1 < length (symptoms d)"
      by (simp_all add: remove_disabled_def)
    then have "take i (symptoms d) @ drop (Suc i) (symptoms d) \<noteq> []"
      by (metis length_0_conv less_numeral_extra(3) zero_less_diff)
    with False RemoveSymptom show ?thesis by simp
  qed
next
  case (ChooseImage files loaded)
  with assms show ?thesis by (simp split: list.splits)
next
  case StartNewAssessment
  then show ?thesis by (simp add: defaultValues_def)
qed (use assms in simp_all)

lemma edits_symptoms_nonempty: "symptoms d \<noteq> [] \<Longrightarrow> symptoms (edits es d) \<noteq> []"
  unfolding edits_def
  by (induction es arbitrary: d) (simp_all add: edit_symptoms_nonempty)

lemma empty_symptoms_issue:
  "symptoms d = [] \<Longrightarrow>
     ([Key ''symptoms''], ''Please add at least one symptom.'') \<in> set (formSchema d)"
proof -
  assume "symptoms d = []"
  then have "([Key ''symptoms''], ''Please add at least one symptom.'')
      \<in> set (snd (object_schema d))"
    by (simp add: snd_object_schema symptoms_schema_def snd_merge_status snd_checked)
  with object_issues_in_formSchema [of d] show ?thesis
    by blast
qed

text \<open>
  Claim C6. A record with an empty symptom list fails full validation with an error at
  \<open>symptoms\<close>. The default record has exactly one symptom row, the button that removes a
  row is disabled while at most one row is left (and then changes nothing), and after
  any sequence of uses of the controls the list still has at least one row.
\<close>

theorem at_least_one_symptom:
  "(symptoms d = [] \<longrightarrow> \<not> accepted d \<and> has_error (formSchema d) [Key ''symptoms''])
   \<and> length (symptoms defaultValues) = 1
   \<and> (length (symptoms d) \<le> 1 \<longrightarrow> remove_disabled d \<and> edit (RemoveSymptom i) d = d)
   \<and> 1 \<le> length (symptoms (edits es defaultValues))"
proof (intro conjI impI)
  assume "symptoms d = []"
  from empty_symptoms_issue [OF this]
  show "has_error (formSchema d) [Key ''symptoms'']"
    by (force simp add: has_error_iff under_def)
  then show "\<not> accepted d"
    by (rule has_error_not_accepted)
next
  show "length (symptoms defaultValues) = 1"
    by (simp add: defaultValues_def)
next
  assume "length (symptoms d) \<le> 1"
  then show "remove_disabled d" and "edit (RemoveSymptom i) d = d"
    by (simp_all add: remove_disabled_def)
next
  have "symptoms defaultValues \<noteq> []"
    by (simp add: defaultValues_def)
  then have "symptoms (edits es defaultValues) \<noteq> []"
    by (rule edits_symptoms_nonempty)
  then show "1 \<le> length (symptoms (edits es defaultValues))"
    by (cases "symptoms (edits es defaultValues)") simp_all
qed

theorem at_least_one_symptom_witness:
  "\<not> accepted (jane_kg\<lparr> symptoms := [] \<rparr>)
   \<and> has_error (formSchema (jane_kg\<lparr> symptoms := [] \<rparr>)) [Key ''symptoms'']
   \<and> remove_disabled jane_kg \<and> edit (RemoveSymptom 0) jane_kg = jane_kg
   \<and> 1 \<le> length (symptoms (edits [AppendSymptom, RemoveSymptom 0, RemoveSymptom 0] defaultValues))"
  using at_least_one_symptom [of "jane_kg\<lparr> symptoms := [] \<rparr>" 0 "[]"]
    at_least_one_symptom [of jane_kg 0 "[AppendSymptom, RemoveSymptom 0, RemoveSymptom 0]"]
  by (simp add: jane_def jane_kg_def)

section \<open>Gender\<close>

lemma gender_error_iff: "has_error (formSchema d) [Key ''gender''] \<longleftrightarrow> gender d = []"
proof
  assume "has_error (formSchema d) [Key ''gender'']"
  then obtain e where e: "e \<in> set (formSchema d)" "under [Key ''gender''] (fst e)"
    by (auto simp add: has_error_iff)
  from formSchema_issue_cases [OF e(1)] show "gender d = []"
  proof
    assume "e \<in> set (snd (object_schema d))"
    from object_issue_cases [OF this] e(2) show ?thesis
      by (auto simp add: under_key)
  next
    assume "age d \<noteq> None \<and> e \<in> set (refinements d)"
    with refinement_issue_cases [of e d] e(2) show ?thesis
      by (auto simp add: under_key)
  qed
next
  assume "gender d = []"
  then have "([Key ''gender''], ''Gender is required.'') \<in> set (snd (object_schema d))"
    by (simp add: snd_object_schema string_min1_def snd_checked)
  with object_issues_in_formSchema [of d] show "has_error (formSchema d) [Key ''gender'']"
    by (force simp add: has_error_iff under_def)
qed

lemma edit_gender:
  "gender d = [] \<or> gender d \<in> set genderOptions \<Longrightarrow>
     gender (edit e d) = [] \<or> gender (edit e d) \<in> set genderOptions"
  by (cases e) (auto simp add: defaultValues_def split: list.splits)

lemma edits_gender:
  "gender d = [] \<or> gender d \<in> set genderOptions \<Longrightarrow>
     gender (edits es d) = [] \<or> gender (edits es d) \<in> set genderOptions"
  unfolding edits_def
proof (induction es arbitrary: d)
  case Nil
  then show ?case by simp
next
  case (Cons e es)
  from Cons.prems have "gender (edit e d) = [] \<or> gender (edit e d) \<in> set genderOptions"
    by (rule edit_gender)
  from Cons.IH [OF this] show ?case by simp
qed

text \<open>
  Claim C7, as the schema has it. The schema asks of the gender only that it is a
  non-empty string: an error is attached to \<open>gender\<close> exactly when it is empty, and an
  accepted record has a non-empty gender. The four options are those of the select of
  the profile step, so a record entered through the controls and accepted by full
  validation has one of them as its gender.
\<close>

theorem gender_required_nonempty:
  "(has_error (formSchema d) [Key ''gender''] \<longleftrightarrow> gender d = [])
   \<and> (accepted d \<longrightarrow> gender d \<noteq> [])
   \<and> set genderOptions = {''Male'', ''Female'', ''Other'', ''Prefer not to say''}
   \<and> (accepted (edits es defaultValues) \<longrightarrow> gender (edits es defaultValues) \<in> set genderOptions)"
proof (intro conjI impI)
  show "has_error (formSchema d) [Key ''gender''] \<longleftrightarrow> gender d = []"
    by (rule gender_error_iff)
  show "gender d \<noteq> []" if "accepted d"
    using that has_error_not_accepted [of d "[Key ''gender'']"] gender_error_iff [of d]
    by blast
  show "set genderOptions = {''Male'', ''Female'', ''Other'', ''Prefer not to say''}"
    by (simp add: genderOptions_def)
  show "gender (edits es defaultValues) \<in> set genderOptions" if "accepted (edits es defaultValues)"
  proof -
    have "gender defaultValues = [] \<or> gender defaultValues \<in> set genderOptions"
      by (simp add: defaultValues_def)
    from edits_gender [OF this]
    have "gender (edits es defaultValues) = []
        \<or> gender (edits es defaultValues) \<in> set genderOptions" .
    moreover have "gender (edits es defaultValues) \<noteq> []"
      using that has_error_not_accepted [of "edits es defaultValues" "[Key ''gender'']"]
        gender_error_iff [of "edits es defaultValues"]
      by blast
    ultimately show ?thesis by blast
  qed
qed

theorem gender_required_nonempty_witness:
  "accepted jane_kg \<and> gender jane_kg \<noteq> []
   \<and> accepted (edits [TypeName ''Jane'', TypeAge (Some 30), SelectGender ''Female'',
        TypeSymptomName 0 ''Headache'', SelectSeverity 0 ''Mild''] defaultValues)
   \<and> gender (edits [TypeName ''Jane'', TypeAge (Some 30), SelectGender ''Female'',
        TypeSymptomName 0 ''Headache'', SelectSeverity 0 ''Mild''] defaultValues)
      \<in> set genderOptions"
proof -
  have a: "accepted jane_kg"
    by code_simp
  have b: "accepted (edits [TypeName ''Jane'', TypeAge (Some 30), SelectGender ''Female'',
        TypeSymptomName 0 ''Headache'', SelectSeverity 0 ''Mild''] defaultValues)"
    by code_simp
  from a b gender_required_nonempty [of jane_kg "[TypeName ''Jane'', TypeAge (Some 30),
        SelectGender ''Female'', TypeSymptomName 0 ''Headache'', SelectSeverity 0 ''Mild'']"]
  show ?thesis by blast
qed

text \<open>
  The claim as stated fails: a record whose gender is outside the four options is
  accepted by full validation.
\<close>

theorem gender_outside_options_counterexample:
  "''Robot'' \<notin> set genderOptions \<and> accepted (jane_kg\<lparr> gender := ''Robot'' \<rparr>)"
  by code_simp

section \<open>Facts about the resolver\<close>

lemma parseErrorSchema_subset: "set (parseErrorSchema es) \<subseteq> set es"
  by (induction es) auto

lemma parseErrorSchema_first:
  "e \<in> set (parseErrorSchema es) \<longleftrightarrow> find (\<lambda>x. fst x = fst e) es = Some e"
  by (induction es) auto

lemma parseErrorSchema_paths: "fst ` set (parseErrorSchema es) = fst ` set es"
proof (induction es)
  case Nil
  show ?case by simp
next
  case (Cons a es)
  have "fst ` set (filter (\<lambda>x. fst x \<noteq> fst a) (parseErrorSchema es))
      = fst ` set (parseErrorSchema es) - {fst a}"
    by auto
  with Cons show ?case by auto
qed

lemma parseErrorSchema_Nil: "parseErrorSchema es = [] \<longleftrightarrow> es = []"
  by (cases es) simp_all

lemma has_error_paths: "has_error es n \<longleftrightarrow> (\<exists>p\<in>fst ` set es. under n p)"
  by (simp add: has_error_iff)

lemma has_error_resolver: "has_error (resolver d) n \<longleftrightarrow> has_error (formSchema d) n"
  by (simp only: has_error_paths resolver_def parseErrorSchema_paths)

lemma resolver_subset: "set (resolver d) \<subseteq> set (formSchema d)"
  by (simp add: resolver_def parseErrorSchema_subset)

lemma resolver_first:
  "e \<in> set (resolver d) \<longleftrightarrow> find (\<lambda>x. fst x = fst e) (formSchema d) = Some e"
  by (simp add: resolver_def parseErrorSchema_first)

lemma resolver_Nil: "resolver d = [] \<longleftrightarrow> accepted d"
  by (simp add: resolver_def parseErrorSchema_Nil accepted_def)

lemma scope_valid_resolver:
  "scope_valid names (resolver d) \<longleftrightarrow> scope_valid names (formSchema d)"
  by (simp add: scope_valid_def has_error_resolver)

section \<open>Facts about the wizard\<close>

lemma length_steps: "length steps = 5"
  by (simp add: steps_def)

lemma in_scope_iff: "in_scope names p \<longleftrightarrow> (\<exists>n\<in>set names. under n p)"
  by (simp add: in_scope_def list_ex_iff)

lemma scope_valid_iff:
  "scope_valid names found \<longleftrightarrow> \<not> (\<exists>e\<in>set found. in_scope names (fst e))"
  by (auto simp add: scope_valid_def list_ex_iff has_error_iff in_scope_iff)

lemma settle_simps:
  "currentStep (settle names found s) = currentStep s"
  "formValues (settle names found s) = formValues s"
  "isLoading (settle names found s) = isLoading s"
  "imagePreview (settle names found s) = imagePreview s"
  by (simp_all add: settle_def)

lemma settle_in_scope:
  "in_scope names (fst e) \<Longrightarrow> e \<in> set (formErrors (settle names found s)) \<longleftrightarrow> e \<in> set found"
  by (auto simp add: settle_def)

lemma settle_out_of_scope:
  "\<not> in_scope names (fst e) \<Longrightarrow>
     e \<in> set (formErrors (settle names found s)) \<longleftrightarrow> e \<in> set (formErrors s)"
  by (auto simp add: settle_def)

lemma advance_simps:
  "currentStep (advance s) = min (currentStep s + 1) 4"
  "formValues (advance s) = formValues s"
  "formErrors (advance s) = formErrors s"
  by (simp_all add: advance_def length_steps)

lemma goToNextStep_profile:
  assumes "currentStep s = 0"
  shows "goToNextStep s =
     Inr (if scope_valid profile_fields (formSchema (formValues s))
          then advance (settle profile_fields (resolver (formValues s)) s)
          else settle profile_fields (resolver (formValues s)) s)"
proof -
  from assms have "\<not> length steps \<le> currentStep s" and "steps ! currentStep s = ''profile''"
    by (simp_all add: steps_def)
  then show ?thesis
    by (simp add: goToNextStep_def trigger_def Let_def scope_valid_resolver)
qed

lemma goToNextStep_symptoms:
  assumes "currentStep s = 1"
  shows "goToNextStep s =
     Inr (if scope_valid [[Key ''symptoms'']] (formSchema (formValues s))
          then advance (settle [[Key ''symptoms'']] (resolver (formValues s)) s)
          else settle [[Key ''symptoms'']] (resolver (formValues s)) s)"
proof -
  from assms have "\<not> length steps \<le> currentStep s" and "steps ! currentStep s = ''symptoms''"
    by (simp_all add: steps_def)
  then show ?thesis
    by (simp add: goToNextStep_def trigger_def Let_def scope_valid_resolver)
qed

lemma goToNextStep_medical_image:
  assumes "currentStep s = 2"
  shows "goToNextStep s =
     Inr (if has_error (formErrors s) [Key ''medicalImage''] then s else advance s)"
proof -
  from assms have "\<not> length steps \<le> currentStep s"
    and "steps ! currentStep s = ''medical-image''"
    by (simp_all add: steps_def)
  then show ?thesis
    by (simp add: goToNextStep_def Let_def)
qed

lemma goToNextStep_later:
  assumes "currentStep s = 3 \<or> currentStep s = 4"
  shows "goToNextStep s = Inr (advance s)"
proof -
  from assms have "\<not> length steps \<le> currentStep s"
    and "steps ! currentStep s = ''medical-history'' \<or> steps ! currentStep s = ''review''"
    by (auto simp add: steps_def)
  then show ?thesis
    by (auto simp add: goToNextStep_def Let_def)
qed

lemma goToNextStep_beyond:
  assumes "5 \<le> currentStep s"
  shows "goToNextStep s = Inl TypeError"
  using assms by (simp add: goToNextStep_def length_steps)

lemma jane_issues:
  "formSchema jane = [([Key ''weightUnit''], ''Weight unit is required if weight is provided.'')]"
  by code_simp

lemma jane_kg_accepted: "formSchema jane_kg = []"
  by code_simp

lemma jane_resolved:
  "resolver jane = [([Key ''weightUnit''], ''Weight unit is required if weight is provided.'')]"
  by (simp add: resolver_def jane_issues)

lemma handleSubmit_rejected:
  "\<not> accepted (formValues s) \<Longrightarrow>
     handleSubmit f a s = (s\<lparr> formErrors := resolver (formValues s) \<rparr>, [])"
  by (simp add: handleSubmit_def resolver_Nil Let_def)

section \<open>Forward from the profile step\<close>

text \<open>
  Claim C1. The step forward from the profile step runs the schema and looks at the
  seven profile paths: the record is never changed, the recorded errors outside these
  paths are kept and those at these paths become, for each path, the first issue the
  schema reports there; if an issue lies at one of the paths the step index is unchanged,
  otherwise it is increased by one, clamped to the last index. The example record with
  a weight and no unit stays on the profile step with an error at \<open>weightUnit\<close>; with the
  unit it moves to the symptoms step.
\<close>

theorem next_from_profile:
  "set profile_fields =
     {[Key ''name''], [Key ''age''], [Key ''gender''], [Key ''weight''], [Key ''weightUnit''],
      [Key ''height''], [Key ''heightUnit'']}
   \<and> (currentStep s = 0 \<longrightarrow>
        (\<exists>t. goToNextStep s = Inr t \<and> formValues t = formValues s
           \<and> (\<forall>e. \<not> in_scope profile_fields (fst e) \<longrightarrow>
                 (e \<in> set (formErrors t) \<longleftrightarrow> e \<in> set (formErrors s)))
           \<and> (\<forall>e. in_scope profile_fields (fst e) \<longrightarrow>
                 (e \<in> set (formErrors t)
                   \<longleftrightarrow> find (\<lambda>x. fst x = fst e) (formSchema (formValues s)) = Some e))
           \<and> (if \<exists>e\<in>set (formSchema (formValues s)). in_scope profile_fields (fst e)
               then currentStep t = currentStep s
               else currentStep t = min (currentStep s + 1) (length steps - 1))))
   \<and> (currentStep s = 0 \<and> formValues s = jane \<longrightarrow>
        (\<exists>t. goToNextStep s = Inr t \<and> currentStep t = 0
           \<and> has_error (formErrors t) [Key ''weightUnit'']))
   \<and> (currentStep s = 0 \<and> formValues s = jane_kg \<longrightarrow>
        (\<exists>t. goToNextStep s = Inr t \<and> steps ! currentStep t = ''symptoms''))"
proof (intro conjI impI)
  show "set profile_fields =
     {[Key ''name''], [Key ''age''], [Key ''gender''], [Key ''weight''], [Key ''weightUnit''],
      [Key ''height''], [Key ''heightUnit'']}"
    by (simp add: profile_fields_def)
next
  assume step: "currentStep s = 0"
  let ?found = "resolver (formValues s)"
  let ?t = "if scope_valid profile_fields (formSchema (formValues s))
            then advance (settle profile_fields ?found s) else settle profile_fields ?found s"
  have "goToNextStep s = Inr ?t"
    using step by (rule goToNextStep_profile)
  moreover have "formValues ?t = formValues s"
    by (simp add: advance_simps settle_simps)
  moreover have "\<forall>e. \<not> in_scope profile_fields (fst e) \<longrightarrow>
      (e \<in> set (formErrors ?t) \<longleftrightarrow> e \<in> set (formErrors s))"
    by (simp add: advance_simps settle_out_of_scope)
  moreover have "\<forall>e. in_scope profile_fields (fst e) \<longrightarrow>
      (e \<in> set (formErrors ?t)
        \<longleftrightarrow> find (\<lambda>x. fst x = fst e) (formSchema (formValues s)) = Some e)"
    by (simp add: advance_simps settle_in_scope resolver_first)
  moreover have "if \<exists>e\<in>set (formSchema (formValues s)). in_scope profile_fields (fst e)
      then currentStep ?t = currentStep s
      else currentStep ?t = min (currentStep s + 1) (length steps - 1)"
    by (simp add: scope_valid_iff advance_simps settle_simps length_steps)
  ultimately show "\<exists>t. goToNextStep s = Inr t \<and> formValues t = formValues s
      \<and> (\<forall>e. \<not> in_scope profile_fields (fst e) \<longrightarrow>
            (e \<in> set (formErrors t) \<longleftrightarrow> e \<in> set (formErrors s)))
      \<and> (\<forall>e. in_scope profile_fields (fst e) \<longrightarrow>
            (e \<in> set (formErrors t)
              \<longleftrightarrow> find (\<lambda>x. fst x = fst e) (formSchema (formValues s)) = Some e))
      \<and> (if \<exists>e\<in>set (formSchema (formValues s)). in_scope profile_fields (fst e)
          then currentStep t = currentStep s
          else currentStep t = min (currentStep s + 1) (length steps - 1))"
    by blast
next
  assume a: "currentStep s = 0 \<and> formValues s = jane"
  then have "goToNextStep s = Inr (settle profile_fields (resolver jane) s)"
    by (simp add: goToNextStep_profile jane_issues scope_valid_def has_error_def under_def
        profile_fields_def)
  moreover have "has_error (formErrors (settle profile_fields (resolver jane) s))
      [Key ''weightUnit'']"
    by (simp add: jane_resolved settle_def has_error_def under_def in_scope_def
        profile_fields_def)
  ultimately show "\<exists>t. goToNextStep s = Inr t \<and> currentStep t = 0
      \<and> has_error (formErrors t) [Key ''weightUnit'']"
    using a by (simp add: settle_simps)
next
  assume a: "currentStep s = 0 \<and> formValues s = jane_kg"
  then have "goToNextStep s = Inr (advance (settle profile_fields [] s))"
    by (simp add: goToNextStep_profile jane_kg_accepted scope_valid_iff resolver_def)
  moreover have "steps ! currentStep (advance (settle profile_fields [] s)) = ''symptoms''"
    using a by (simp add: advance_simps settle_simps steps_def)
  ultimately show "\<exists>t. goToNextStep s = Inr t \<and> steps ! currentStep t = ''symptoms''"
    by simp
qed

theorem next_from_profile_witness:
  "(\<exists>t. goToNextStep ((initial :: unit wizard)\<lparr> formValues := jane \<rparr>) = Inr t
      \<and> currentStep t = 0 \<and> has_error (formErrors t) [Key ''weightUnit''])
   \<and> (\<exists>t. goToNextStep ((initial :: unit wizard)\<lparr> formValues := jane_kg \<rparr>) = Inr t
      \<and> steps ! currentStep t = ''symptoms'')
   \<and> (\<exists>t. goToNextStep age_zero_state = Inr t \<and> currentStep t = 0
      \<and> ([Key ''age''], ''Age must be a positive number.'') \<in> set (formErrors t)
      \<and> ([Key ''age''], ''Age is required.'') \<notin> set (formErrors t))"
proof (intro conjI)
  have "currentStep ((initial :: unit wizard)\<lparr> formValues := jane \<rparr>) = 0
      \<and> formValues ((initial :: unit wizard)\<lparr> formValues := jane \<rparr>) = jane"
    by (simp add: initial_def)
  with next_from_profile [of "(initial :: unit wizard)\<lparr> formValues := jane \<rparr>"]
  show "\<exists>t. goToNextStep ((initial :: unit wizard)\<lparr> formValues := jane \<rparr>) = Inr t
      \<and> currentStep t = 0 \<and> has_error (formErrors t) [Key ''weightUnit'']"
    by blast
next
  have "currentStep ((initial :: unit wizard)\<lparr> formValues := jane_kg \<rparr>) = 0
      \<and> formValues ((initial :: unit wizard)\<lparr> formValues := jane_kg \<rparr>) = jane_kg"
    by (simp add: initial_def)
  with next_from_profile [of "(initial :: unit wizard)\<lparr> formValues := jane_kg \<rparr>"]
  show "\<exists>t. goToNextStep ((initial :: unit wizard)\<lparr> formValues := jane_kg \<rparr>) = Inr t
      \<and> steps ! currentStep t = ''symptoms''"
    by blast
next
  have found: "formSchema (formValues age_zero_state) =
      [([Key ''age''], ''Age must be a positive number.''), ([Key ''age''], ''Age is required.'')]"
    unfolding age_zero_state_def by code_simp
  have step: "currentStep age_zero_state = 0"
    by (simp add: age_zero_state_def)
  have scope: "in_scope profile_fields [Key ''age'']"
    by (simp add: in_scope_def profile_fields_def under_def)
  from step next_from_profile [of age_zero_state]
  obtain t where t: "goToNextStep age_zero_state = Inr t"
    and rec: "\<forall>e. in_scope profile_fields (fst e) \<longrightarrow>
      (e \<in> set (formErrors t)
        \<longleftrightarrow> find (\<lambda>x. fst x = fst e) (formSchema (formValues age_zero_state)) = Some e)"
    and idx: "if \<exists>e\<in>set (formSchema (formValues age_zero_state)). in_scope profile_fields (fst e)
      then currentStep t = currentStep age_zero_state
      else currentStep t = min (currentStep age_zero_state + 1) (length steps - 1)"
    by blast
  from idx scope step have "currentStep t = 0"
    by (simp add: found)
  moreover from rec scope
  have "([Key ''age''], ''Age must be a positive number.'') \<in> set (formErrors t)"
    and "([Key ''age''], ''Age is required.'') \<notin> set (formErrors t)"
    by (simp_all add: found)
  ultimately show "\<exists>t. goToNextStep age_zero_state = Inr t \<and> currentStep t = 0
      \<and> ([Key ''age''], ''Age must be a positive number.'') \<in> set (formErrors t)
      \<and> ([Key ''age''], ''Age is required.'') \<notin> set (formErrors t)"
    using t by blast
qed

section \<open>Forward from the medical-image step\<close>

text \<open>
  Claim C8, as the code has it. The step forward from the medical-image step runs no
  validation: it stays exactly when an error is already recorded for \<open>medicalImage\<close> and
  moves to the next step otherwise, whatever the description is. The rule that an image
  needs a description is enforced by the full validation of the submission, which hands
  nothing to the analysis service for such a record.
\<close>

theorem next_from_medical_image:
  "(currentStep s = 2 \<longrightarrow>
      goToNextStep s =
        Inr (if has_error (formErrors s) [Key ''medicalImage''] then s
             else s\<lparr> currentStep := 3 \<rparr>))
   \<and> ((\<exists>files. medicalImage (formValues s) = Some files \<and> files \<noteq> [])
        \<and> (imageDescription (formValues s) = None \<or> imageDescription (formValues s) = Some [])
      \<longrightarrow> \<not> accepted (formValues s) \<and> snd (handleSubmit f a s) = [])"
proof (intro conjI impI)
  assume "currentStep s = 2"
  then show "goToNextStep s =
      Inr (if has_error (formErrors s) [Key ''medicalImage''] then s else s\<lparr> currentStep := 3 \<rparr>)"
    by (simp add: goToNextStep_medical_image advance_def length_steps)
next
  assume a: "(\<exists>files. medicalImage (formValues s) = Some files \<and> files \<noteq> [])
      \<and> (imageDescription (formValues s) = None \<or> imageDescription (formValues s) = Some [])"
  show r: "\<not> accepted (formValues s)"
  proof (cases "age (formValues s)")
    case None
    then show ?thesis by (rule age_absent_not_accepted)
  next
    case (Some n)
    with a image_rule_iff [of "formValues s"] imageDescription_error_iff [of "formValues s"]
    have "has_error (formSchema (formValues s)) [Key ''imageDescription'']"
      by simp
    then show ?thesis by (rule has_error_not_accepted)
  qed
  then show "snd (handleSubmit f a s) = []"
    by (simp add: handleSubmit_rejected)
qed

theorem next_from_medical_image_witness:
  "goToNextStep image_state = Inr (image_state\<lparr> currentStep := 3 \<rparr>)
   \<and> \<not> accepted (formValues image_state)
   \<and> snd (handleSubmit (\<lambda>f. Some []) (\<lambda>i. None) image_state) = []"
proof -
  have "currentStep image_state = 2" and "\<not> has_error (formErrors image_state) [Key ''medicalImage'']"
    and "(\<exists>files. medicalImage (formValues image_state) = Some files \<and> files \<noteq> [])
      \<and> (imageDescription (formValues image_state) = None
          \<or> imageDescription (formValues image_state) = Some [])"
    by (simp_all add: image_state_def has_error_def jane_kg_def jane_def)
  with next_from_medical_image [of image_state "\<lambda>f. Some []" "\<lambda>i. None"]
  show ?thesis by simp
qed

text \<open>
  The claim as stated fails: with an image and no description, where the schema attaches
  an error to \<open>imageDescription\<close>, the step forward still advances.
\<close>

theorem next_ignores_description_counterexample:
  "has_image (formValues image_state)
   \<and> imageDescription (formValues image_state) = None
   \<and> has_error (formSchema (formValues image_state)) [Key ''imageDescription'']
   \<and> goToNextStep image_state = Inr (image_state\<lparr> currentStep := 3 \<rparr>)"
proof -
  have "currentStep image_state = 2" and "\<not> has_error (formErrors image_state) [Key ''medicalImage'']"
    by (simp_all add: image_state_def has_error_def)
  then have "goToNextStep image_state = Inr (image_state\<lparr> currentStep := 3 \<rparr>)"
    by (simp add: goToNextStep_medical_image advance_def length_steps)
  moreover have "has_error (formSchema (formValues image_state)) [Key ''imageDescription'']"
    by (simp add: imageDescription_error_iff image_rule_iff image_state_def jane_kg_def jane_def)
  moreover have "has_image (formValues image_state)"
      and "imageDescription (formValues image_state) = None"
    by (simp_all add: image_state_def has_image_def jane_kg_def jane_def)
  ultimately show ?thesis by simp
qed

section \<open>Backward navigation\<close>

text \<open>
  Claim C10, as the code has it. The step backward is a total function of the state: it
  decreases the step index by one, stopping at zero, and touches neither the record nor
  the recorded errors. From a step of the list the step forward returns a state with the
  same record. It leaves the step index where it is in four cases: on the profile step
  when the schema reports an issue at a profile path, on the symptoms step when it
  reports one at or below \<open>symptoms\<close>, on the medical-image step when an error is recorded
  for \<open>medicalImage\<close>, and on the last step; the step backward then leads one step before
  the start. In every other case it increases the index by one, and the step backward
  returns to the step it started from. Beyond the list the step forward raises.
\<close>

theorem previous_step:
  "currentStep (goToPreviousStep s) = currentStep s - 1
   \<and> formValues (goToPreviousStep s) = formValues s
   \<and> formErrors (goToPreviousStep s) = formErrors s
   \<and> (currentStep s < length steps \<longrightarrow>
        (\<exists>t. goToNextStep s = Inr t
           \<and> formValues t = formValues s
           \<and> formValues (goToPreviousStep t) = formValues s
           \<and> (if (currentStep s = 0
                    \<and> (\<exists>e\<in>set (formSchema (formValues s)). in_scope profile_fields (fst e)))
                  \<or> (currentStep s = 1 \<and> has_error (formSchema (formValues s)) [Key ''symptoms''])
                  \<or> (currentStep s = 2 \<and> has_error (formErrors s) [Key ''medicalImage''])
                  \<or> currentStep s = 4
               then currentStep t = currentStep s
                 \<and> currentStep (goToPreviousStep t) = currentStep s - 1
               else currentStep t = currentStep s + 1
                 \<and> currentStep (goToPreviousStep t) = currentStep s)))
   \<and> (length steps \<le> currentStep s \<longrightarrow> goToNextStep s = Inl TypeError)"
proof (intro conjI impI)
  show "currentStep (goToPreviousStep s) = currentStep s - 1"
    by (simp add: goToPreviousStep_def)
  show "formValues (goToPreviousStep s) = formValues s"
    by (simp add: goToPreviousStep_def)
  show "formErrors (goToPreviousStep s) = formErrors s"
    by (simp add: goToPreviousStep_def)
next
  assume "length steps \<le> currentStep s"
  then show "goToNextStep s = Inl TypeError"
    by (simp add: goToNextStep_beyond length_steps)
next
  let ?found = "resolver (formValues s)"
  assume "currentStep s < length steps"
  then consider "currentStep s = 0" | "currentStep s = 1" | "currentStep s = 2"
    | "currentStep s = 3" | "currentStep s = 4"
    unfolding length_steps by linarith
  then show "\<exists>t. goToNextStep s = Inr t
      \<and> formValues t = formValues s
      \<and> formValues (goToPreviousStep t) = formValues s
      \<and> (if (currentStep s = 0
               \<and> (\<exists>e\<in>set (formSchema (formValues s)). in_scope profile_fields (fst e)))
             \<or> (currentStep s = 1 \<and> has_error (formSchema (formValues s)) [Key ''symptoms''])
             \<or> (currentStep s = 2 \<and> has_error (formErrors s) [Key ''medicalImage''])
             \<or> currentStep s = 4
          then currentStep t = currentStep s
            \<and> currentStep (goToPreviousStep t) = currentStep s - 1
          else currentStep t = currentStep s + 1
            \<and> currentStep (goToPreviousStep t) = currentStep s)"
  proof cases
    case 1
    then show ?thesis
      by (simp add: goToNextStep_profile scope_valid_iff advance_simps settle_simps
          goToPreviousStep_def)
  next
    case 2
    then show ?thesis
      by (simp add: goToNextStep_symptoms scope_valid_def advance_simps settle_simps
          goToPreviousStep_def)
  next
    case 3
    then show ?thesis
      by (simp add: goToNextStep_medical_image advance_simps goToPreviousStep_def)
  next
    case 4
    then show ?thesis
      by (simp add: goToNextStep_later advance_simps goToPreviousStep_def)
  next
    case 5
    then show ?thesis
      by (simp add: goToNextStep_later advance_simps goToPreviousStep_def)
  qed
qed

theorem previous_step_witness:
  "(\<exists>t. goToNextStep (symptoms_state\<lparr> formValues := jane_kg \<rparr>) = Inr t
      \<and> currentStep t = 2 \<and> currentStep (goToPreviousStep t) = 1
      \<and> formValues (goToPreviousStep t) = jane_kg)
   \<and> (\<exists>t. goToNextStep review_state = Inr t
      \<and> currentStep t = 4 \<and> currentStep (goToPreviousStep t) = 3
      \<and> formValues (goToPreviousStep t) = jane_kg)"
proof
  have "currentStep (symptoms_state\<lparr> formValues := jane_kg \<rparr>) = 1"
    and "formValues (symptoms_state\<lparr> formValues := jane_kg \<rparr>) = jane_kg"
    and "\<not> has_error (formSchema jane_kg) [Key ''symptoms'']"
    by (simp_all add: symptoms_state_def jane_kg_accepted has_error_def)
  with previous_step [of "symptoms_state\<lparr> formValues := jane_kg \<rparr>"]
  show "\<exists>t. goToNextStep (symptoms_state\<lparr> formValues := jane_kg \<rparr>) = Inr t
      \<and> currentStep t = 2 \<and> currentStep (goToPreviousStep t) = 1
      \<and> formValues (goToPreviousStep t) = jane_kg"
    by (auto simp add: length_steps numeral_2_eq_2)
next
  have "currentStep review_state = 4" and "formValues review_state = jane_kg"
    by (simp_all add: review_state_def)
  with previous_step [of review_state]
  show "\<exists>t. goToNextStep review_state = Inr t
      \<and> currentStep t = 4 \<and> currentStep (goToPreviousStep t) = 3
      \<and> formValues (goToPreviousStep t) = jane_kg"
    by (auto simp add: length_steps)
qed

text \<open>
  The claim as stated fails on the symptoms step with an empty symptom row: the step
  forward is rejected, and the step backward then leads to the profile step.
\<close>

theorem next_rejected_then_previous_counterexample:
  "currentStep symptoms_state = 1
   \<and> goToNextStep symptoms_state = Inr symptoms_rejected
   \<and> currentStep (goToPreviousStep symptoms_rejected) = 0"
proof -
  have "formSchema (formValues symptoms_state) =
      [([Key ''symptoms'', Idx 0, Key ''name''], ''Symptom name is required.''),
       ([Key ''symptoms'', Idx 0, Key ''severity''], ''Severity is required.'')]"
    by code_simp
  then have "goToNextStep symptoms_state = Inr symptoms_rejected"
    by (simp add: goToNextStep_symptoms symptoms_state_def symptoms_rejected_def resolver_def
        scope_valid_def has_error_def under_def settle_def in_scope_def)
  then show ?thesis
    by (simp add: symptoms_state_def symptoms_rejected_def goToPreviousStep_def)
qed

section \<open>Removing the image\<close>

lemma medicalImage_error:
  assumes "has_error (formSchema d) [Key ''medicalImage'']"
  shows "has_image d"
proof -
  from assms obtain e where e: "e \<in> set (formSchema d)" "under [Key ''medicalImage''] (fst e)"
    by (auto simp add: has_error_iff)
  from formSchema_issue_cases [OF e(1)] show ?thesis
  proof
    assume "e \<in> set (snd (object_schema d))"
    from object_issue_cases [OF this] e(2) show ?thesis
      by (auto simp add: under_key)
  next
    assume "age d \<noteq> None \<and> e \<in> set (refinements d)"
    with refinement_issue_cases [of e d] e(2) show ?thesis
      by (auto simp add: under_key)
  qed
qed

lemma has_error_settle:
  "has_error (formErrors (settle [n] found s)) m \<longleftrightarrow>
     (\<exists>e\<in>set (formErrors s). \<not> under n (fst e) \<and> under m (fst e))
     \<or> (\<exists>e\<in>set found. under n (fst e) \<and> under m (fst e))"
  by (simp add: has_error_iff settle_def in_scope_def) blast

lemma has_error_clearErrors:
  "has_error (formErrors (clearErrors n s)) m \<longleftrightarrow>
     (\<exists>e\<in>set (formErrors s). \<not> under n (fst e) \<and> under m (fst e))"
  by (simp add: has_error_iff clearErrors_def) force

lemma removeImage_values:
  "formValues (removeImage s) = (formValues s)\<lparr> medicalImage := None, imageDescription := None \<rparr>"
  by (simp add: removeImage_def Let_def settle_def clearErrors_def)

lemma removeImage_errors:
  "formErrors (removeImage s) =
     formErrors
       (settle [[Key ''imageDescription'']]
          (resolver ((formValues s)\<lparr> medicalImage := None, imageDescription := None \<rparr>))
          (settle [[Key ''medicalImage'']]
             (resolver ((formValues s)\<lparr> medicalImage := None \<rparr>))
             (clearErrors [Key ''imageDescription''] (clearErrors [Key ''medicalImage''] s))))"
  by (simp add: removeImage_def Let_def settle_def clearErrors_def)

lemma no_image_error_without_image:
  "medicalImage d = None \<Longrightarrow> e \<in> set (formSchema d) \<Longrightarrow> \<not> under [Key ''medicalImage''] (fst e)"
  using medicalImage_error [of d] by (auto simp add: has_error_iff has_image_def)

lemma no_description_error_when_cleared:
  "medicalImage d = None \<Longrightarrow> imageDescription d = None \<Longrightarrow> e \<in> set (formSchema d)
     \<Longrightarrow> \<not> under [Key ''imageDescription''] (fst e)"
  using imageDescription_error_iff [of d] image_rule_iff [of d]
  by (auto simp add: has_error_iff)

text \<open>
  Claim C9. After \<^verbatim>\<open>removeImage\<close>, from any state, the image and the description are both
  absent, no error is recorded for either field, the preview is gone and the rest of the
  record is as before; so the image is present exactly when the description is.
\<close>

theorem remove_image_clears:
  "medicalImage (formValues (removeImage s)) = None
   \<and> imageDescription (formValues (removeImage s)) = None
   \<and> \<not> has_error (formErrors (removeImage s)) [Key ''medicalImage'']
   \<and> \<not> has_error (formErrors (removeImage s)) [Key ''imageDescription'']
   \<and> imagePreview (removeImage s) = None
   \<and> formValues (removeImage s) = (formValues s)\<lparr> medicalImage := None, imageDescription := None \<rparr>
   \<and> (medicalImage (formValues (removeImage s)) = None
        \<longleftrightarrow> imageDescription (formValues (removeImage s)) = None)"
proof -
  let ?d1 = "(formValues s)\<lparr> medicalImage := None \<rparr>"
  let ?d2 = "(formValues s)\<lparr> medicalImage := None, imageDescription := None \<rparr>"
  have v: "formValues (removeImage s) = ?d2"
    by (rule removeImage_values)
  have i1: "\<not> under [Key ''medicalImage''] (fst e)" if "e \<in> set (resolver ?d1)" for e
    using that resolver_subset [of ?d1] no_image_error_without_image [of ?d1 e] by auto
  have i2: "\<not> under [Key ''imageDescription''] (fst e)" if "e \<in> set (resolver ?d2)" for e
    using that resolver_subset [of ?d2] no_description_error_when_cleared [of ?d2 e] by auto
  have a: "\<not> has_error (formErrors (removeImage s)) [Key ''medicalImage'']"
    unfolding removeImage_errors has_error_settle has_error_clearErrors
    using i1 i2 by (auto simp add: settle_def clearErrors_def)
  have b: "\<not> has_error (formErrors (removeImage s)) [Key ''imageDescription'']"
    unfolding removeImage_errors has_error_settle has_error_clearErrors
    using i1 i2 by (auto simp add: settle_def clearErrors_def)
  have p: "imagePreview (removeImage s) = None"
    by (simp add: removeImage_def Let_def settle_def clearErrors_def)
  from v a b p show ?thesis by simp
qed

theorem remove_image_clears_witness:
  "medicalImage (formValues described_image_state) = Some [scan]
   \<and> imageDescription (formValues described_image_state) = Some ''X-ray of the right knee''
   \<and> medicalImage (formValues (removeImage described_image_state)) = None
   \<and> imageDescription (formValues (removeImage described_image_state)) = None
   \<and> \<not> has_error (formErrors (removeImage described_image_state)) [Key ''medicalImage'']
   \<and> \<not> has_error (formErrors (removeImage described_image_state)) [Key ''imageDescription'']"
  using remove_image_clears [of described_image_state]
  by (simp add: described_image_state_def)

section \<open>Submission\<close>

lemma onSubmit_isLoading: "\<not> isLoading (fst (onSubmit f a d s))"
  by (simp add: onSubmit_def Let_def split: option.splits list.splits)

lemma onSubmit_currentStep: "currentStep (fst (onSubmit f a d s)) = currentStep s"
  by (simp add: onSubmit_def Let_def split: option.splits list.splits)

lemma onSubmit_no_image: "\<not> has_image d \<Longrightarrow> snd (onSubmit f a d s) = [payload d None]"
  by (simp add: onSubmit_def has_image_def Let_def split: option.splits list.splits)

lemma onSubmit_with_image:
  "medicalImage d = Some (f0 # rest) \<Longrightarrow> f f0 = Some uri \<Longrightarrow>
     snd (onSubmit f a d s) = [payload d (Some uri)]"
  by (simp add: onSubmit_def Let_def split: option.splits)

lemma onSubmit_calls: "inp \<in> set (snd (onSubmit f a d s)) \<Longrightarrow> \<exists>uri. inp = payload d uri"
  by (auto simp add: onSubmit_def Let_def split: option.splits list.splits)

lemma onSubmit_failed:
  assumes "inp \<in> set (snd (onSubmit f a d s))" and "a inp = None"
  shows "error (fst (onSubmit f a d s)) = Some analysis_error_message
    \<and> results (fst (onSubmit f a d s)) = None"
  using assms by (auto simp add: onSubmit_def Let_def split: option.splits list.splits)

lemma handleSubmit_accepted:
  assumes "accepted (formValues s)"
  shows "handleSubmit f a s = onSubmit f a (formValues s) (s\<lparr> formErrors := [] \<rparr>)"
proof -
  from assms have "resolver (formValues s) = []"
    by (simp add: resolver_Nil)
  then show ?thesis
    by (simp add: handleSubmit_def Let_def)
qed

lemma analysis_error_message_nonempty: "analysis_error_message \<noteq> []"
  by (simp add: analysis_error_message_def)

text \<open>
  Claim C4. When a payload was handed to the analysis service and the call failed, the
  settled state has the step index it had before (the review step when the submission
  started there), is not loading, holds no result and holds the non-empty message of
  the analysis error. Whatever the outcome, \<^verbatim>\<open>onSubmit\<close> never settles in the loading
  state, and a submission from a state that is not loading does not end in one.
\<close>

theorem submit_failure_settles:
  "(inp \<in> set (snd (handleSubmit f a s)) \<and> a inp = None \<longrightarrow>
      currentStep (fst (handleSubmit f a s)) = currentStep s
      \<and> \<not> isLoading (fst (handleSubmit f a s))
      \<and> results (fst (handleSubmit f a s)) = None
      \<and> error (fst (handleSubmit f a s)) = Some analysis_error_message
      \<and> analysis_error_message \<noteq> []
      \<and> (currentStep s = 4 \<longrightarrow> steps ! currentStep (fst (handleSubmit f a s)) = ''review''))
   \<and> (\<not> isLoading s \<longrightarrow> \<not> isLoading (fst (handleSubmit f a s)))
   \<and> \<not> isLoading (fst (onSubmit f a d s))"
proof (intro conjI impI)
  assume h: "inp \<in> set (snd (handleSubmit f a s)) \<and> a inp = None"
  then have acc: "accepted (formValues s)"
    by (cases "accepted (formValues s)") (simp_all add: handleSubmit_rejected)
  note eq = handleSubmit_accepted [OF acc, of f a]
  from h have i: "inp \<in> set (snd (onSubmit f a (formValues s) (s\<lparr> formErrors := [] \<rparr>)))"
    by (simp add: eq)
  show c: "currentStep (fst (handleSubmit f a s)) = currentStep s"
    by (simp add: eq onSubmit_currentStep)
  show "\<not> isLoading (fst (handleSubmit f a s))"
    by (simp add: eq onSubmit_isLoading)
  from onSubmit_failed [OF i] h
  show "results (fst (handleSubmit f a s)) = None"
    and "error (fst (handleSubmit f a s)) = Some analysis_error_message"
    by (simp_all add: eq)
  show "analysis_error_message \<noteq> []"
    by (rule analysis_error_message_nonempty)
  show "steps ! currentStep (fst (handleSubmit f a s)) = ''review''" if "currentStep s = 4"
    using that c by (simp add: steps_def)
next
  assume "\<not> isLoading s"
  then show "\<not> isLoading (fst (handleSubmit f a s))"
    by (cases "accepted (formValues s)")
       (simp_all add: handleSubmit_accepted handleSubmit_rejected onSubmit_isLoading)
next
  show "\<not> isLoading (fst (onSubmit f a d s))"
    by (rule onSubmit_isLoading)
qed

theorem submit_failure_settles_witness:
  "steps ! currentStep (fst (handleSubmit (\<lambda>f. None) (\<lambda>i. None) review_state)) = ''review''
   \<and> \<not> isLoading (fst (handleSubmit (\<lambda>f. None) (\<lambda>i. None) review_state))
   \<and> results (fst (handleSubmit (\<lambda>f. None) (\<lambda>i. None) review_state)) = None
   \<and> error (fst (handleSubmit (\<lambda>f. None) (\<lambda>i. None) review_state)) = Some analysis_error_message"
proof -
  have "accepted (formValues review_state)"
    by (simp add: review_state_def accepted_def jane_kg_accepted)
  moreover have "\<not> has_image (formValues review_state)"
    by (simp add: review_state_def has_image_def jane_kg_def jane_def)
  ultimately have "snd (handleSubmit (\<lambda>f. None) (\<lambda>i. None) review_state)
      = [payload (formValues review_state) None]"
    by (simp add: handleSubmit_accepted onSubmit_no_image)
  then have "payload (formValues review_state) None
      \<in> set (snd (handleSubmit (\<lambda>f. None) (\<lambda>i. None) review_state))"
    by simp
  moreover have "currentStep review_state = 4" and "\<not> isLoading review_state"
    by (simp_all add: review_state_def)
  ultimately show ?thesis
    using submit_failure_settles [of "payload (formValues review_state) None" "\<lambda>f. None"
        "\<lambda>i. None" review_state]
    by (simp add: steps_def)
qed

section \<open>The comma lists of the payload\<close>

declare comma_substrings.simps [simp del]

lemma split_comma_nonempty: "split_comma s \<noteq> []"
  by (induction s) (auto split: list.splits)

lemma comma_substrings_Nil: "comma_substrings [] = [[]]"
  by (subst comma_substrings.simps) simp

lemma comma_substrings_comma: "comma_substrings (CHR '','' # cs) = [] # comma_substrings cs"
  by (subst comma_substrings.simps) simp

lemma comma_substrings_other:
  assumes "c \<noteq> CHR '',''"
  shows "comma_substrings (c # cs) =
     (case comma_substrings cs of [] \<Rightarrow> [[c]] | p # ps \<Rightarrow> (c # p) # ps)"
proof -
  let ?P = "\<lambda>c. c \<noteq> CHR '',''"
  from assms have d: "dropWhile ?P (c # cs) = dropWhile ?P cs"
    and t: "takeWhile ?P (c # cs) = c # takeWhile ?P cs"
    by simp_all
  show ?thesis
  proof (cases "dropWhile ?P cs")
    case Nil
    then have "takeWhile ?P cs = cs"
      by simp
    with Nil have "comma_substrings cs = [cs]" and "comma_substrings (c # cs) = [c # cs]"
      using comma_substrings.simps [of cs] comma_substrings.simps [of "c # cs"]
      by (simp_all only: d t list.case)
    then show ?thesis by simp
  next
    case (Cons x rest)
    then have "comma_substrings cs = takeWhile ?P cs # comma_substrings rest"
      and "comma_substrings (c # cs) = (c # takeWhile ?P cs) # comma_substrings rest"
      using comma_substrings.simps [of cs] comma_substrings.simps [of "c # cs"]
      by (simp_all only: d t list.case)
    then show ?thesis by simp
  qed
qed

lemma split_comma_substrings: "split_comma s = comma_substrings s"
proof (induction s)
  case Nil
  show ?case by (simp add: comma_substrings_Nil)
next
  case (Cons c cs)
  then show ?case
    by (cases "c = CHR '',''") (simp_all add: comma_substrings_comma comma_substrings_other)
qed

lemma filter_map_comprehension:
  "filter (\<lambda>t. t \<noteq> []) (map f xs) = [f t. t \<leftarrow> xs, f t \<noteq> []]"
  by (induction xs) simp_all

lemma char_code_eq: "c = d \<longleftrightarrow> (of_char c :: nat) = of_char d"
  by simp

lemma is_space_white_space: "is_space c = white_space c"
proof -
  have "is_space c \<longleftrightarrow> (of_char c :: nat) \<in> {9, 10, 11, 12, 13, 32, 160}"
    by (simp add: is_space_def char_code_eq [of c])
  also have "\<dots> \<longleftrightarrow> white_space c"
    by (auto simp add: white_space_def Let_def)
  finally show ?thesis .
qed

lemma drop_leading_dropWhile: "drop_leading s = dropWhile white_space s"
  by (induction s) simp_all

lemma drop_trailing_all: "list_all white_space s \<Longrightarrow> drop_trailing s = []"
  by (cases s) simp_all

lemma drop_trailing_dropWhile: "drop_trailing s = rev (dropWhile white_space (rev s))"
proof (induction s)
  case Nil
  show ?case by simp
next
  case (Cons c cs)
  show ?case
  proof (cases "list_all white_space cs")
    case True
    then have "dropWhile white_space (rev cs @ [c]) = dropWhile white_space [c]"
      by (simp add: dropWhile_append list_all_iff)
    with True show ?thesis
      by (simp add: drop_trailing_all)
  next
    case False
    then have "dropWhile white_space (rev cs @ [c]) = dropWhile white_space (rev cs) @ [c]"
      by (simp add: dropWhile_append list_all_iff)
    with False Cons show ?thesis
      by simp
  qed
qed

lemma trim_trimmed: "trim = trimmed"
proof
  fix s
  have "is_space = white_space"
    by (rule ext) (rule is_space_white_space)
  then show "trim s = trimmed s"
    by (simp add: trim_def trimmed_def drop_leading_dropWhile drop_trailing_dropWhile)
qed

lemma comma_list_trimmed_items: "comma_list x = trimmed_items x"
  by (cases x) (simp_all add: comma_list_def trimmed_items_def split_comma_substrings
      filter_map_comprehension trim_trimmed)

lemma split_comma_chars: "p \<in> set (split_comma s) \<Longrightarrow> set p \<subseteq> set s"
proof (induction s arbitrary: p)
  case Nil
  then show ?case by simp
next
  case (Cons c cs)
  show ?case
  proof (cases "c = CHR '',''")
    case True
    with Cons show ?thesis by auto
  next
    case False
    obtain q qs where q: "split_comma cs = q # qs"
      using split_comma_nonempty [of cs] by (cases "split_comma cs") auto
    with False Cons.prems have "p = c # q \<or> p \<in> set qs"
      by auto
    with q Cons.IH [of q] Cons.IH [of p] show ?thesis
      by auto
  qed
qed

lemma split_comma_no_comma: "p \<in> set (split_comma s) \<Longrightarrow> CHR '','' \<notin> set p"
proof (induction s arbitrary: p)
  case Nil
  then show ?case by simp
next
  case (Cons c cs)
  show ?case
  proof (cases "c = CHR '',''")
    case True
    with Cons show ?thesis by auto
  next
    case False
    obtain q qs where q: "split_comma cs = q # qs"
      using split_comma_nonempty [of cs] by (cases "split_comma cs") auto
    with False Cons.prems have "p = c # q \<or> p \<in> set qs"
      by auto
    with q False Cons.IH [of q] Cons.IH [of p] show ?thesis
      by auto
  qed
qed

lemma trim_chars: "set (trim s) \<subseteq> set s"
proof -
  have "set (trim s) \<subseteq> set (dropWhile is_space s)"
    using set_dropWhileD [of _ is_space "rev (dropWhile is_space s)"]
    by (auto simp add: trim_def)
  then show ?thesis
    using set_dropWhileD [of _ is_space s] by blast
qed

lemma trim_all_space:
  assumes "list_all is_space s"
  shows "trim s = []"
  using assms by (auto simp add: trim_def list_all_iff dest: set_dropWhileD)

lemma trim_ends:
  assumes "trim s \<noteq> []"
  shows "\<not> is_space (hd (trim s)) \<and> \<not> is_space (last (trim s))"
proof -
  let ?y = "dropWhile is_space s"
  let ?x = "dropWhile is_space (rev ?y)"
  from assms have x: "?x \<noteq> []"
    by (simp add: trim_def)
  have y: "?y \<noteq> []"
  proof
    assume "?y = []"
    then have "?x = []"
      by (simp only: rev.simps dropWhile.simps)
    with x show False by contradiction
  qed
  from x have "\<not> is_space (hd ?x)"
    by (rule hd_dropWhile)
  then have l: "\<not> is_space (last (trim s))"
    using x by (simp add: trim_def last_rev)
  from x obtain z where "z \<in> set (rev ?y)" and "\<not> is_space z"
    by auto
  then have "last ?x = last (rev ?y)"
    by (rule dropWhile_last)
  also have "\<dots> = hd ?y"
    using y by (simp add: last_rev)
  finally have "hd (trim s) = hd ?y"
    using x by (simp add: trim_def hd_rev)
  moreover from y have "\<not> is_space (hd ?y)"
    by (rule hd_dropWhile)
  ultimately show ?thesis
    using l by simp
qed

lemma comma_list_items:
  assumes "t \<in> set (comma_list x)"
  shows "t \<noteq> [] \<and> CHR '','' \<notin> set t \<and> \<not> white_space (hd t) \<and> \<not> white_space (last t)"
proof -
  from assms obtain s p where "x = Some s" and p: "p \<in> set (split_comma s)"
    and t: "t = trim p" "trim p \<noteq> []"
    by (cases x) (auto simp add: comma_list_def)
  from split_comma_no_comma [OF p] trim_chars [of p] have "CHR '','' \<notin> set (trim p)"
    by blast
  with t trim_ends [of p] show ?thesis
    by (simp add: is_space_white_space)
qed

lemma comma_list_blank: "blank x \<Longrightarrow> comma_list x = []"
proof (cases x)
  case None
  then show ?thesis by (simp add: comma_list_def)
next
  case (Some s)
  assume "blank x"
  with Some have all: "\<forall>c\<in>set s. is_space c"
    by (simp add: blank_def list_all_iff is_space_white_space)
  have "trim p = []" if "p \<in> set (split_comma s)" for p
  proof -
    from split_comma_chars [OF that] all have "list_all is_space p"
      by (auto simp add: list_all_iff)
    then show ?thesis by (rule trim_all_space)
  qed
  then have "filter (\<lambda>t. t \<noteq> []) (map trim (split_comma s)) = []"
    by (auto simp add: filter_empty_conv)
  with Some show ?thesis by (simp add: comma_list_def)
qed

text \<open>
  Claim C5. For a record accepted by full validation: without an image the analysis
  service receives exactly one payload, with no \<open>imageDataUri\<close>; with an image that the
  reader converts it receives exactly one payload with the converted text. In every
  payload handed over, the two lists of the medical history are the trimmed non-empty
  substrings between the commas of the raw texts, in order, as \<open>trimmed_items\<close> spells
  them out without the functions of the code; they are empty when the text is absent or
  consists of white space; and each of their items is non-empty, holds no comma and
  neither starts nor ends with white space.
\<close>

theorem submit_payload:
  "accepted (formValues s) \<longrightarrow>
     (\<not> has_image (formValues s) \<longrightarrow>
        (\<exists>inp. snd (handleSubmit f a s) = [inp] \<and> imageDataUri inp = None))
     \<and> (medicalImage (formValues s) = Some (f0 # rest) \<and> f f0 = Some uri \<longrightarrow>
        (\<exists>inp. snd (handleSubmit f a s) = [inp] \<and> imageDataUri inp = Some uri))
     \<and> (\<forall>inp\<in>set (snd (handleSubmit f a s)).
          pastConditionsList (in_medicalHistory inp)
            = trimmed_items (pastConditions (medicalHistory (formValues s)))
          \<and> currentMedicationsList (in_medicalHistory inp)
            = trimmed_items (currentMedications (medicalHistory (formValues s)))
          \<and> (blank (pastConditions (medicalHistory (formValues s)))
              \<longrightarrow> pastConditionsList (in_medicalHistory inp) = [])
          \<and> (blank (currentMedications (medicalHistory (formValues s)))
              \<longrightarrow> currentMedicationsList (in_medicalHistory inp) = [])
          \<and> (\<forall>t\<in>set (pastConditionsList (in_medicalHistory inp)
                      @ currentMedicationsList (in_medicalHistory inp)).
                t \<noteq> [] \<and> CHR '','' \<notin> set t
                \<and> \<not> white_space (hd t) \<and> \<not> white_space (last t)))"
proof (intro impI conjI ballI)
  assume acc: "accepted (formValues s)"
  note eq = handleSubmit_accepted [OF acc, of f a]
  show "\<exists>inp. snd (handleSubmit f a s) = [inp] \<and> imageDataUri inp = None"
    if "\<not> has_image (formValues s)"
    using that by (simp add: eq onSubmit_no_image payload_def)
  show "\<exists>inp. snd (handleSubmit f a s) = [inp] \<and> imageDataUri inp = Some uri"
    if "medicalImage (formValues s) = Some (f0 # rest) \<and> f f0 = Some uri"
    using that by (simp add: eq onSubmit_with_image payload_def)
  fix inp
  assume "inp \<in> set (snd (handleSubmit f a s))"
  then obtain uri where inp: "inp = payload (formValues s) uri"
    using onSubmit_calls [of inp f a "formValues s"] by (auto simp add: eq)
  let ?h = "medicalHistory (formValues s)"
  have p: "pastConditionsList (in_medicalHistory inp) = comma_list (pastConditions ?h)"
    and c: "currentMedicationsList (in_medicalHistory inp) = comma_list (currentMedications ?h)"
    by (simp_all add: inp payload_def)
  from p show "pastConditionsList (in_medicalHistory inp) = trimmed_items (pastConditions ?h)"
    by (simp add: comma_list_trimmed_items)
  from c show "currentMedicationsList (in_medicalHistory inp)
      = trimmed_items (currentMedications ?h)"
    by (simp add: comma_list_trimmed_items)
  from p show "pastConditionsList (in_medicalHistory inp) = []" if "blank (pastConditions ?h)"
    using that by (simp add: comma_list_blank)
  from c show "currentMedicationsList (in_medicalHistory inp) = []"
    if "blank (currentMedications ?h)"
    using that by (simp add: comma_list_blank)
  fix t
  assume "t \<in> set (pastConditionsList (in_medicalHistory inp)
      @ currentMedicationsList (in_medicalHistory inp))"
  with p c have "t \<in> set (comma_list (pastConditions ?h))
      \<or> t \<in> set (comma_list (currentMedications ?h))"
    by simp
  then show "t \<noteq> []" and "CHR '','' \<notin> set t"
    and "\<not> white_space (hd t)" and "\<not> white_space (last t)"
    using comma_list_items by blast+
qed

theorem submit_payload_witness:
  "(\<exists>inp. snd (handleSubmit (\<lambda>f. None) (\<lambda>i. None) history_state) = [inp]
      \<and> imageDataUri inp = None
      \<and> pastConditionsList (in_medicalHistory inp) = [''Asthma'', ''Type 2 diabetes'']
      \<and> currentMedicationsList (in_medicalHistory inp) = [''Ibuprofen'', ''Metformin''])
   \<and> (\<exists>inp. snd (handleSubmit (\<lambda>f. None) (\<lambda>i. None) review_state) = [inp]
      \<and> imageDataUri inp = None
      \<and> pastConditionsList (in_medicalHistory inp) = []
      \<and> currentMedicationsList (in_medicalHistory inp) = [])"
proof
  have "formSchema (formValues history_state) = []"
    unfolding history_state_def by code_simp
  then have "accepted (formValues history_state)"
    by (simp add: accepted_def)
  moreover have "\<not> has_image (formValues history_state)"
    by (simp add: history_state_def has_image_def jane_kg_def jane_def)
  moreover have "trimmed_items (pastConditions (medicalHistory (formValues history_state)))
      = [''Asthma'', ''Type 2 diabetes'']"
    unfolding history_state_def by code_simp
  moreover have "trimmed_items (currentMedications (medicalHistory (formValues history_state)))
      = [''Ibuprofen'', ''Metformin'']"
    unfolding history_state_def by code_simp
  ultimately show "\<exists>inp. snd (handleSubmit (\<lambda>f. None) (\<lambda>i. None) history_state) = [inp]
      \<and> imageDataUri inp = None
      \<and> pastConditionsList (in_medicalHistory inp) = [''Asthma'', ''Type 2 diabetes'']
      \<and> currentMedicationsList (in_medicalHistory inp) = [''Ibuprofen'', ''Metformin'']"
    using submit_payload [of history_state "\<lambda>f. None" "\<lambda>i. None"]
    by auto
next
  have "accepted (formValues review_state)"
    by (simp add: review_state_def accepted_def jane_kg_accepted)
  moreover have "\<not> has_image (formValues review_state)"
    and "blank (pastConditions (medicalHistory (formValues review_state)))"
    and "blank (currentMedications (medicalHistory (formValues review_state)))"
    by (simp_all add: review_state_def has_image_def blank_def jane_kg_def jane_def)
  ultimately show "\<exists>inp. snd (handleSubmit (\<lambda>f. None) (\<lambda>i. None) review_state) = [inp]
      \<and> imageDataUri inp = None
      \<and> pastConditionsList (in_medicalHistory inp) = []
      \<and> currentMedicationsList (in_medicalHistory inp) = []"
    using submit_payload [of review_state "\<lambda>f. None" "\<lambda>i. None"]
    by auto
qed

end
